theory Spec2Isabelle
  imports Main "HOL-Library.Word" "HOL-Library.Sublist" "HOL-Library.AList"
begin

unbundle bit_operations_syntax

section \<open>JavaScript values and strings\<close>

text \<open>
  A JavaScript string is a sequence of UTF-16 code units; the regular expressions of
  \<^verbatim>\<open>knx-utils.js\<close> carry no \<^verbatim>\<open>u\<close> flag, so they see code units as well.
  \<open>js\<close> turns an ASCII literal into such a sequence.
\<close>

type_synonym js_char = "16 word"
type_synonym js_string = "js_char list"

definition js :: "string \<Rightarrow> js_string" where
  "js s = map (\<lambda>c. word_of_nat (of_char c)) s"

text \<open>
  The primitive values the modelled functions inspect. \<open>Number\<close> carries the
  integer-valued finite numbers; \<open>NaN\<close>, \<open>PosInfinity\<close> and \<open>NegInfinity\<close> are
  the numbers that are not finite. Numbers with a fractional part are not represented.
\<close>

datatype js_value =
    Undefined
  | Null
  | Bool bool
  | Number int
  | NaN
  | PosInfinity
  | NegInfinity
  | Str js_string

text \<open>\<^verbatim>\<open>Boolean(v)\<close>, the truthiness that \<^verbatim>\<open>!v\<close>, \<^verbatim>\<open>||\<close> and \<^verbatim>\<open>if\<close> use.\<close>

fun truthy :: "js_value \<Rightarrow> bool" where
  "truthy Undefined = False"
| "truthy Null = False"
| "truthy (Bool b) = b"
| "truthy (Number n) = (n \<noteq> 0)"
| "truthy NaN = False"
| "truthy PosInfinity = True"
| "truthy NegInfinity = True"
| "truthy (Str s) = (s \<noteq> [])"

text \<open>\<^verbatim>\<open>a || b\<close> on values.\<close>

definition js_or :: "js_value \<Rightarrow> js_value \<Rightarrow> js_value" where
  "js_or a b = (if truthy a then a else b)"

definition digit :: "nat \<Rightarrow> js_char" where
  "digit d = word_of_nat (48 + d)"

text \<open>The decimal digits of a natural number, most significant first, no leading zero.\<close>

fun decimal :: "nat \<Rightarrow> js_string" where
  "decimal n = (if n < 10 then [digit n] else decimal (n div 10) @ [digit (n mod 10)])"

declare decimal.simps [simp del]

text \<open>
  Number-to-string conversion, as a template literal or \<^verbatim>\<open>String(n)\<close> performs it on an
  integer-valued number (of magnitude below \<open>10\<^sup>2\<^sup>1\<close>, where JavaScript switches to
  exponent notation).
\<close>

definition number_to_string :: "int \<Rightarrow> js_string" where
  "number_to_string i = (if i < 0 then js ''-'' @ decimal (nat (- i)) else decimal (nat i))"

text \<open>\<^verbatim>\<open>String(v)\<close>.\<close>

fun String :: "js_value \<Rightarrow> js_string" where
  "String Undefined = js ''undefined''"
| "String Null = js ''null''"
| "String (Bool b) = (if b then js ''true'' else js ''false'')"
| "String (Number n) = number_to_string n"
| "String NaN = js ''NaN''"
| "String PosInfinity = js ''Infinity''"
| "String NegInfinity = js ''-Infinity''"
| "String (Str s) = s"

section \<open>knx-utils.js\<close>

subsection \<open>groupAddressNumberToString\<close>

text \<open>
  \<^verbatim>\<open>addr & 0xffff\<close> first converts \<^verbatim>\<open>addr\<close> to a 32-bit integer and then keeps the low
  16 bits, which are the low 16 bits of the integer itself: \<open>AND\<close> on \<open>int\<close> is two's
  complement. \<^verbatim>\<open>safe\<close> is not negative, so \<^verbatim>\<open>>>\<close> is \<open>drop_bit\<close>.

  Only \<^verbatim>\<open>'TwoLevel'\<close> is tested for; every other style, \<^verbatim>\<open>'Free'\<close> among them, takes the
  path the source marks \<^verbatim>\<open>// Default: ThreeLevel\<close>.
\<close>

definition groupAddressNumberToString :: "js_value \<Rightarrow> js_string \<Rightarrow> js_string" where
  "groupAddressNumberToString addr style =
     (case addr of
        Number a \<Rightarrow>
          (let safe = a AND 0xffff in
           if style = js ''TwoLevel'' then
             (let main = drop_bit 11 safe AND 0x1f;
                  sub = safe AND 0x7ff
              in number_to_string main @ js ''/'' @ number_to_string sub)
           else
             (let main = drop_bit 11 safe AND 0x1f;
                  middle = drop_bit 8 safe AND 0x07;
                  sub = safe AND 0xff
              in number_to_string main @ js ''/'' @ number_to_string middle
                   @ js ''/'' @ number_to_string sub))
      | _ \<Rightarrow> String addr)"

subsection \<open>Regular-expression helpers\<close>

text \<open>
  The code units that \<^verbatim>\<open>\s\<close> matches and that \<^verbatim>\<open>trim()\<close> strips: ECMAScript's
  WhiteSpace and LineTerminator.
\<close>

definition is_white_space :: "js_char \<Rightarrow> bool" where
  "is_white_space c \<longleftrightarrow>
     c \<in> set [0x9, 0xA, 0xB, 0xC, 0xD, 0x20, 0xA0, 0x1680, 0x2028, 0x2029, 0x202F,
              0x205F, 0x3000, 0xFEFF]
     \<or> (0x2000 \<le> c \<and> c \<le> 0x200A)"

text \<open>\<^verbatim>\<open>\d\<close>.\<close>

definition is_digit :: "js_char \<Rightarrow> bool" where
  "is_digit c \<longleftrightarrow> 0x30 \<le> c \<and> c \<le> 0x39"

text \<open>The class \<^verbatim>\<open>[A-Za-z0-9_\-]\<close>.\<close>

definition is_safe :: "js_char \<Rightarrow> bool" where
  "is_safe c \<longleftrightarrow>
     (0x41 \<le> c \<and> c \<le> 0x5A) \<or> (0x61 \<le> c \<and> c \<le> 0x7A) \<or> (0x30 \<le> c \<and> c \<le> 0x39)
     \<or> c = 0x5F \<or> c = 0x2D"

definition underscore :: js_char where
  "underscore = 0x5F"

text \<open>\<^verbatim>\<open>s.trim()\<close>.\<close>

definition trim :: "js_string \<Rightarrow> js_string" where
  "trim s = rev (dropWhile is_white_space (rev (dropWhile is_white_space s)))"

text \<open>
  \<^verbatim>\<open>s.replace(/X+/g, r)\<close> for a character class \<open>X\<close>: scanning from the left, every
  maximal run of code units in the class is replaced by \<open>r\<close>.
\<close>

function replace_runs :: "(js_char \<Rightarrow> bool) \<Rightarrow> js_string \<Rightarrow> js_string \<Rightarrow> js_string" where
  "replace_runs X r [] = []"
| "replace_runs X r (c # cs) =
     (if X c then r @ replace_runs X r (dropWhile X cs) else c # replace_runs X r cs)"
  by pat_completeness auto
termination
  by (relation "measure (\<lambda>(X, r, s). length s)")
     (auto simp: length_dropWhile_le less_Suc_eq_le)

text \<open>\<^verbatim>\<open>s.replace(/X/g, r)\<close>: every single code unit in the class is replaced by \<open>r\<close>.\<close>

definition replace_each :: "(js_char \<Rightarrow> bool) \<Rightarrow> js_string \<Rightarrow> js_string \<Rightarrow> js_string" where
  "replace_each X r s = concat (map (\<lambda>c. if X c then r else [c]) s)"

text \<open>
  \<^verbatim>\<open>s.replace(/^X+|X+$/g, '')\<close>: the run at the start of the string is removed by the
  first alternative, the run that reaches the end of what is left by the second.
\<close>

definition strip_edges :: "(js_char \<Rightarrow> bool) \<Rightarrow> js_string \<Rightarrow> js_string" where
  "strip_edges X s = rev (dropWhile X (rev (dropWhile X s)))"

subsection \<open>sanitizeIdSegment\<close>

text \<open>The chain of replacements that the source binds to \<^verbatim>\<open>s\<close>.\<close>

definition sanitized :: "js_string \<Rightarrow> js_string" where
  "sanitized n =
     strip_edges (\<lambda>c. c = underscore)
       (replace_runs (\<lambda>c. c = underscore) (js ''_'')
         (replace_each (\<lambda>c. \<not> is_safe c) (js ''_'')
           (replace_runs is_white_space (js ''_'')
             (trim n))))"

definition sanitizeIdSegment :: "js_value \<Rightarrow> js_string" where
  "sanitizeIdSegment name =
     (case name of
        Str n \<Rightarrow> (let s = sanitized n in if s = [] then js ''unnamed'' else s)
      | _ \<Rightarrow> js ''unnamed'')"

subsection \<open>dptMajor and inferCommonFromDpt\<close>

text \<open>\<^verbatim>\<open>parseInt(digits, 10)\<close> on a string of decimal digits.\<close>

definition parseInt10 :: "js_string \<Rightarrow> nat" where
  "parseInt10 s = foldl (\<lambda>acc c. 10 * acc + (unat c - 48)) 0 s"

text \<open>
  \<^verbatim>\<open>/^(\d+)(?:\.(\d+))?$/\<close> on the trimmed string: a non-empty run of digits, then either
  the end or a dot and a second non-empty run of digits that reaches the end. The
  result is the exact integer; \<^verbatim>\<open>parseInt\<close> rounds it to a double, and digit strings
  beyond the double range (which \<^verbatim>\<open>Number.isFinite\<close> rejects) are not told apart here:
  every caller only compares the result with 1, 16 and 19.
\<close>

definition dptMajor :: "js_string option \<Rightarrow> nat option" where
  "dptMajor dpt =
     (case dpt of
        None \<Rightarrow> None
      | Some d \<Rightarrow>
          if d = [] then None
          else
            (let s = trim d;
                 major = takeWhile is_digit s;
                 rest = dropWhile is_digit s
             in if major \<noteq> [] \<and>
                   (rest = [] \<or> (hd rest = 0x2E \<and> tl rest \<noteq> [] \<and> list_all is_digit (tl rest)))
                then Some (parseInt10 major)
                else None))"

definition inferCommonFromDpt :: "js_string option \<Rightarrow> js_string \<times> js_string" where
  "inferCommonFromDpt dpt =
     (let major = dptMajor dpt in
      if major = Some 1 then (js ''boolean'', js ''switch'')
      else if major = Some 16 then (js ''string'', js ''text'')
      else if major = Some 19 then (js ''string'', js ''date'')
      else (js ''number'', js ''value''))"

section \<open>ets-import.js: buildFlagsByGroupAddressId\<close>

record flags =
  readFlag :: bool
  writeFlag :: bool
  transmitFlag :: bool
  updateFlag :: bool

text \<open>
  The parsed project, as far as the aggregation reads it. A collection that is absent
  or \<^verbatim>\<open>null\<close> is the empty list (\<^verbatim>\<open>x?.lines || []\<close>); a field that is absent is
  \<open>Undefined\<close>; a reference in the list may be \<^verbatim>\<open>null\<close>, which is \<open>None\<close>.
\<close>

record send_target =
  send_groupAddressRefID :: js_value

record receive_target =
  receive_groupAddressRefID :: js_value
  receive_groupAddressRedID :: js_value

record connector =
  send :: "send_target list"
  receive :: "receive_target list"

record cor =
  isActive :: js_value
  cor_readFlag :: js_value
  cor_writeFlag :: js_value
  cor_transmitFlag :: js_value
  cor_updateFlag :: js_value
  connectors :: "connector list"

record device =
  communicationObjectReferences :: "cor option list"

record line =
  devices :: "device list"

record area =
  lines :: "line list"

record topology =
  areas :: "area list"

text \<open>
  A JavaScript \<^verbatim>\<open>Map\<close> keeps its keys in insertion order, and \<^verbatim>\<open>set\<close> on a key that is
  present keeps the key's place: an association list under \<open>AList.update\<close>, read
  with \<open>map_of\<close>.
\<close>

type_synonym flags_map = "(js_value \<times> flags) list"

text \<open>
  The six lines shared by the send and the receive loop: fetch the aggregate (or start
  one with every flag false), \<^verbatim>\<open>||=\<close> each field, store it.
\<close>

definition aggregate :: "flags_map \<Rightarrow> js_value \<Rightarrow> flags \<Rightarrow> flags_map" where
  "aggregate m gaId fl =
     (let agg = (case map_of m gaId of
                   Some a \<Rightarrow> a
                 | None \<Rightarrow> \<lparr>readFlag = False, writeFlag = False, transmitFlag = False,
                            updateFlag = False\<rparr>)
      in AList.update gaId
           \<lparr>readFlag = readFlag agg \<or> readFlag fl,
            writeFlag = writeFlag agg \<or> writeFlag fl,
            transmitFlag = transmitFlag agg \<or> transmitFlag fl,
            updateFlag = updateFlag agg \<or> updateFlag fl\<rparr> m)"

definition send_step :: "flags \<Rightarrow> flags_map \<Rightarrow> send_target \<Rightarrow> flags_map" where
  "send_step fl m s =
     (let gaId = send_groupAddressRefID s in
      if \<not> truthy gaId then m else aggregate m gaId fl)"

definition receive_step :: "flags \<Rightarrow> flags_map \<Rightarrow> receive_target \<Rightarrow> flags_map" where
  "receive_step fl m r =
     (let gaId = js_or (receive_groupAddressRefID r) (receive_groupAddressRedID r) in
      if \<not> truthy gaId then m else aggregate m gaId fl)"

definition connector_step :: "flags \<Rightarrow> flags_map \<Rightarrow> connector \<Rightarrow> flags_map" where
  "connector_step fl m conn =
     foldl (receive_step fl) (foldl (send_step fl) m (send conn)) (receive conn)"

text \<open>The body of the loop over one device's references.\<close>

definition cor_step :: "flags_map \<Rightarrow> cor option \<Rightarrow> flags_map" where
  "cor_step m c =
     (case c of
        None \<Rightarrow> m
      | Some r \<Rightarrow>
          if isActive r = Bool False then m
          else
            (let fl = \<lparr>readFlag = truthy (cor_readFlag r),
                       writeFlag = truthy (cor_writeFlag r),
                       transmitFlag = truthy (cor_transmitFlag r),
                       updateFlag = truthy (cor_updateFlag r)\<rparr>
             in foldl (connector_step fl) m (connectors r)))"

definition device_step :: "flags_map \<Rightarrow> device \<Rightarrow> flags_map" where
  "device_step m d = foldl cor_step m (communicationObjectReferences d)"

definition line_step :: "flags_map \<Rightarrow> line \<Rightarrow> flags_map" where
  "line_step m l = foldl device_step m (devices l)"

definition area_step :: "flags_map \<Rightarrow> area \<Rightarrow> flags_map" where
  "area_step m a = foldl line_step m (lines a)"

definition buildFlagsByGroupAddressId :: "topology \<Rightarrow> flags_map" where
  "buildFlagsByGroupAddressId result = foldl area_step [] (areas result)"

text \<open>
  The order in which monotonicity is stated: every identifier of \<open>m\<close> is still in
  \<open>m'\<close>, and no flag that is set for it in \<open>m\<close> is clear in \<open>m'\<close>.
\<close>

definition flags_le :: "flags \<Rightarrow> flags \<Rightarrow> bool" where
  "flags_le f g \<longleftrightarrow>
     (readFlag f \<longrightarrow> readFlag g) \<and> (writeFlag f \<longrightarrow> writeFlag g) \<and>
     (transmitFlag f \<longrightarrow> transmitFlag g) \<and> (updateFlag f \<longrightarrow> updateFlag g)"

definition flags_map_le :: "flags_map \<Rightarrow> flags_map \<Rightarrow> bool" where
  "flags_map_le m m' \<longleftrightarrow>
     list_all (\<lambda>gaId. case map_of m gaId of
                        None \<Rightarrow> True
                      | Some f \<Rightarrow> (case map_of m' gaId of
                                    None \<Rightarrow> False
                                  | Some g \<Rightarrow> flags_le f g))
       (map fst m)"

text \<open>The references of a topology in the order the four nested loops visit them.\<close>

definition references :: "topology \<Rightarrow> cor option list" where
  "references result =
     concat (map communicationObjectReferences
       (concat (map devices (concat (map lines (areas result))))))"

section \<open>main.js\<close>

subsection \<open>The adapter's state\<close>

record mapping_record =
  meta_ga :: js_string
  meta_dpt :: "js_string option"
  meta_flags :: flags

text \<open>
  A bound datapoint, \<^verbatim>\<open>new knx.Datapoint({ga, dpt, autoread: false}, connection)\<close>, named
  by the options it was made from.
\<close>

record datapoint =
  dp_ga :: js_string
  dp_dpt :: "js_string option"

text \<open>
  The deferred action of a queued job. Every closure handed to \<^verbatim>\<open>enqueueKnx\<close> is
  \<^verbatim>\<open>() => dp.write(value)\<close> or \<^verbatim>\<open>() => dp.read()\<close>.
\<close>

datatype 'k tx_action = Write datapoint 'k | Read datapoint

record 'k tx_job =
  fn :: "'k tx_action"
  descr :: js_string

datatype log_level = Debug | Info | Warn

text \<open>
  A state as the host delivers it to \<^verbatim>\<open>stateChange\<close>: its value and whether \<^verbatim>\<open>ack\<close> is
  truthy. The parameter \<open>'v\<close> is the type of stored values, \<open>'k\<close> of the values handed
  to the bus library and \<open>'b\<close> the state of the bus library itself.
\<close>

record 'v state_event =
  val :: 'v
  ack :: bool

text \<open>
  \<open>stateWrites\<close> is the sequence of \<^verbatim>\<open>setStateAsync(id, value, ack)\<close> calls issued to
  the host's store, oldest first; \<open>logged\<close> the messages handed to \<^verbatim>\<open>this.log\<close>.
\<close>

record ('v, 'k, 'b) adapter =
  namespace :: js_string
  ackOnWrite :: bool
  knxConnected :: bool
  metaByStateId :: "(js_string \<times> mapping_record) list"
  datapointsByStateId :: "(js_string \<times> datapoint) list"
  txQueue :: "'k tx_job list"
  stateWrites :: "(js_string \<times> 'v \<times> bool) list"
  bus :: 'b
  logged :: "(log_level \<times> js_string) list"

definition log_to :: "log_level \<Rightarrow> js_string \<Rightarrow> ('v, 'k, 'b) adapter \<Rightarrow> ('v, 'k, 'b) adapter" where
  "log_to level msg a = a\<lparr>logged := logged a @ [(level, msg)]\<rparr>"

definition setState :: "js_string \<Rightarrow> 'v \<Rightarrow> bool \<Rightarrow> ('v, 'k, 'b) adapter \<Rightarrow> ('v, 'k, 'b) adapter" where
  "setState ident v acked a = a\<lparr>stateWrites := stateWrites a @ [(ident, v, acked)]\<rparr>"

subsection \<open>enqueueKnx and the drain timer of startTxQueue\<close>

definition enqueueKnx :: "'k tx_action \<Rightarrow> js_string \<Rightarrow> ('v, 'k, 'b) adapter \<Rightarrow> ('v, 'k, 'b) adapter" where
  "enqueueKnx f d a =
     a\<lparr>txQueue := txQueue a @ [\<lparr>fn = f, descr = (if d = [] then js ''tx'' else d)\<rparr>]\<rparr>"

text \<open>
  A value that a job's action throws. JavaScript can throw anything: a primitive
  (\<^verbatim>\<open>null\<close> and \<^verbatim>\<open>undefined\<close> among them), a Symbol, or an object. Of an object the
  handler reads two things: its \<^verbatim>\<open>message\<close> property (\<open>Prim Undefined\<close> where it has
  none) and, where the message is falsy, its conversion to a string, which is the
  result of its \<^verbatim>\<open>toString\<close> and \<open>None\<close> where that conversion raises a TypeError, as
  it does for an object without a prototype.
\<close>

datatype js_thrown =
    Prim js_value
  | Symbol
  | Object js_thrown "js_string option"

text \<open>\<^verbatim>\<open>e?.message\<close>: primitives and Symbols have no such property.\<close>

fun message_of :: "js_thrown \<Rightarrow> js_thrown" where
  "message_of (Object msg str) = msg"
| "message_of e = Prim Undefined"

fun thrown_truthy :: "js_thrown \<Rightarrow> bool" where
  "thrown_truthy (Prim v) = truthy v"
| "thrown_truthy e = True"

text \<open>
  The conversion to a string that a template literal applies to an embedded value.
  It raises a TypeError for a Symbol; \<open>None\<close> stands for that.
\<close>

fun to_string :: "js_thrown \<Rightarrow> js_string option" where
  "to_string (Prim v) = Some (String v)"
| "to_string Symbol = None"
| "to_string (Object msg str) = str"

text \<open>\<^verbatim>\<open>${e?.message || e}\<close>.\<close>

definition render_thrown :: "js_thrown \<Rightarrow> js_string option" where
  "render_thrown e =
     (let msg = message_of e in to_string (if thrown_truthy msg then msg else e))"

text \<open>
  How a call ends: it returns, or it throws a value of type \<open>'e\<close>. Both carry the
  state the call leaves behind.
\<close>

datatype ('e, 'a) outcome = Returned 'a | Threw 'e 'a

text \<open>The one exception that the timer callback itself can raise.\<close>

datatype tick_error = TypeError

text \<open>
  One tick of the interval timer. \<open>call\<close> is the bus library: what running a job's
  action does to the bus, and what it throws. The \<^verbatim>\<open>try\<close> covers the call of the action
  only; the \<^verbatim>\<open>catch\<close> body builds its message with a template literal, and where
  that raises, the exception leaves the callback before anything is logged.
\<close>

definition txTick ::
  "('k tx_action \<Rightarrow> 'b \<Rightarrow> (js_thrown, 'b) outcome) \<Rightarrow> ('v, 'k, 'b) adapter
     \<Rightarrow> (tick_error, ('v, 'k, 'b) adapter) outcome" where
  "txTick call a =
     (if \<not> knxConnected a then Returned a
      else
        (case txQueue a of
           [] \<Rightarrow> Returned a
         | job # rest \<Rightarrow>
             (let a1 = a\<lparr>txQueue := rest\<rparr> in
              case call (fn job) (bus a1) of
                Returned b \<Rightarrow> Returned (a1\<lparr>bus := b\<rparr>)
              | Threw e b \<Rightarrow>
                  (case render_thrown e of
                     None \<Rightarrow> Threw TypeError (a1\<lparr>bus := b\<rparr>)
                   | Some rendered \<Rightarrow>
                       Returned
                         (log_to Warn
                            (js ''KNX TX failed ('' @ descr job @ js ''): '' @ rendered)
                            (a1\<lparr>bus := b\<rparr>))))))"

subsection \<open>onStateChange\<close>

text \<open>
  \<open>coerce\<close> stands for \<^verbatim>\<open>coerceToKnxValue\<close>, whose results are doubles and dates read
  off the wall clock; \<open>onStateChange\<close> only passes its result on.
\<close>

definition onStateChange ::
  "('v \<Rightarrow> js_string option \<Rightarrow> 'k) \<Rightarrow> ('v, 'k, 'b) adapter \<Rightarrow> js_string \<Rightarrow> 'v state_event option
     \<Rightarrow> ('v, 'k, 'b) adapter" where
  "onStateChange coerce a idFull state =
     (case state of
        None \<Rightarrow> a
      | Some st \<Rightarrow>
          if ack st then a
          else
            (let pre = namespace a @ js ''.'' in
             if \<not> prefix pre idFull then a
             else
               (let idRel = drop (length pre) idFull in
                if \<not> prefix (js ''ga.'') idRel then a
                else
                  (case (map_of (metaByStateId a) idRel, map_of (datapointsByStateId a) idRel) of
                     (Some meta, Some dp) \<Rightarrow>
                       (let fl = meta_flags meta in
                        if writeFlag fl then
                          (let v = coerce (val st) (meta_dpt meta);
                               a1 = enqueueKnx (Write dp v) (js ''write '' @ meta_ga meta) a
                           in if ackOnWrite a1 then setState idRel (val st) True a1 else a1)
                        else if readFlag fl then
                          (let a1 = enqueueKnx (Read dp) (js ''read '' @ meta_ga meta) a
                           in if ackOnWrite a1 then setState idRel (val st) True a1 else a1)
                        else
                          (let a1 = log_to Debug
                                      (js ''State not writeable/readable by flags: '' @ idRel
                                         @ js '' ('' @ meta_ga meta @ js '')'') a
                           in if ackOnWrite a1 then setState idRel (val st) True a1 else a1))
                   | _ \<Rightarrow> log_to Debug (js ''State change ignored (no mapping): '' @ idRel) a))))"

subsection \<open>rebuildRuntimeMapping\<close>

text \<open>
  A persisted object as the object view returns it. \<open>None\<close> is a missing \<^verbatim>\<open>doc\<close>,
  \<^verbatim>\<open>native\<close> or \<^verbatim>\<open>flags\<close>; a missing field of \<^verbatim>\<open>native\<close> or \<^verbatim>\<open>flags\<close> is \<open>Undefined\<close>.
\<close>

record persisted_flags =
  p_readFlag :: js_value
  p_writeFlag :: js_value
  p_transmitFlag :: js_value
  p_updateFlag :: js_value

record native =
  native_ga :: js_value
  native_dpt :: js_value
  native_flags :: "persisted_flags option"
  native_description :: js_value

record common =
  common_name :: js_string
  common_type :: js_string
  common_role :: js_string
  common_read :: bool
  common_write :: bool

record obj =
  obj_type :: js_string
  obj_common :: "common option"
  obj_native :: "native option"

record row =
  row_id :: js_string
  row_doc :: "obj option"

text \<open>\<^verbatim>\<open>obj.native || {}\<close> and \<^verbatim>\<open>native.flags || {}\<close>.\<close>

definition native_or_empty :: "native option \<Rightarrow> native" where
  "native_or_empty n =
     (case n of
        Some x \<Rightarrow> x
      | None \<Rightarrow> \<lparr>native_ga = Undefined, native_dpt = Undefined, native_flags = None,
                 native_description = Undefined\<rparr>)"

definition flags_or_empty :: "persisted_flags option \<Rightarrow> persisted_flags" where
  "flags_or_empty f =
     (case f of
        Some x \<Rightarrow> x
      | None \<Rightarrow> \<lparr>p_readFlag = Undefined, p_writeFlag = Undefined, p_transmitFlag = Undefined,
                 p_updateFlag = Undefined\<rparr>)"

text \<open>
  The body of the loop over the rows: \<open>None\<close> where it reaches \<^verbatim>\<open>continue\<close>, otherwise
  the key and the record it hands to \<^verbatim>\<open>metaByStateId.set\<close>.
\<close>

definition row_record :: "js_string \<Rightarrow> row \<Rightarrow> (js_string \<times> mapping_record) option" where
  "row_record ns r =
     (case row_doc r of
        None \<Rightarrow> None
      | Some ob \<Rightarrow>
          if obj_type ob \<noteq> js ''state'' then None
          else
            (let nv = native_or_empty (obj_native ob);
                 g = native_ga nv
             in if \<not> truthy g then None
                else
                  (let idFull = row_id r;
                       idRel = (if prefix (ns @ js ''.'') idFull
                                then drop (length ns + 1) idFull else idFull);
                       fl = flags_or_empty (native_flags nv)
                   in Some (idRel,
                        \<lparr>meta_ga = String g,
                         meta_dpt = (if truthy (native_dpt nv)
                                     then Some (String (native_dpt nv)) else None),
                         meta_flags =
                           \<lparr>readFlag = truthy (p_readFlag fl),
                            writeFlag = truthy (p_writeFlag fl),
                            transmitFlag = (if p_transmitFlag fl = Undefined then True
                                            else truthy (p_transmitFlag fl)),
                            updateFlag = truthy (p_updateFlag fl)\<rparr>\<rparr>))))"

definition rebuild_step ::
  "js_string \<Rightarrow> (js_string \<times> mapping_record) list \<Rightarrow> row \<Rightarrow> (js_string \<times> mapping_record) list" where
  "rebuild_step ns m r =
     (case row_record ns r of None \<Rightarrow> m | Some (idRel, mr) \<Rightarrow> AList.update idRel mr m)"

text \<open>\<open>rows\<close> is what the object view answers, \<^verbatim>\<open>res?.rows || []\<close>.\<close>

definition rebuildRuntimeMapping :: "('v, 'k, 'b) adapter \<Rightarrow> row list \<Rightarrow> ('v, 'k, 'b) adapter" where
  "rebuildRuntimeMapping a rows =
     (let m = foldl (rebuild_step (namespace a)) [] rows in
      log_to Info
        (js ''Runtime mapping loaded: '' @ number_to_string (int (length m)) @ js '' datapoints.'')
        (a\<lparr>metaByStateId := m\<rparr>))"

subsection \<open>upsertGaState\<close>

record entry =
  entry_id :: js_string
  entry_name :: js_string
  entry_ga :: js_string
  entry_dpt :: "js_string option"
  entry_flags :: "flags option"
  entry_description :: "js_string option"

type_synonym objects = "(js_string \<times> obj) list"

text \<open>
  The two operations of the host's object store that \<open>upsertGaState\<close> calls.
  \<^verbatim>\<open>setObjectNotExistsAsync\<close> writes the object unless the identifier is taken.
  \<^verbatim>\<open>extendObjectAsync\<close> merges the given parts into the stored object: a field that is
  given replaces the stored one, a field that is \<^verbatim>\<open>undefined\<close> leaves it. Should the
  identifier be free, the parts are stored as they are.
\<close>

definition setObjectNotExists :: "js_string \<Rightarrow> obj \<Rightarrow> objects \<Rightarrow> objects" where
  "setObjectNotExists ident ob objs =
     (case map_of objs ident of Some _ \<Rightarrow> objs | None \<Rightarrow> AList.update ident ob objs)"

definition defined_or :: "js_value \<Rightarrow> js_value \<Rightarrow> js_value" where
  "defined_or new old = (if new = Undefined then old else new)"

definition extend_flags :: "persisted_flags option \<Rightarrow> persisted_flags option \<Rightarrow> persisted_flags option" where
  "extend_flags new old =
     (case new of
        None \<Rightarrow> old
      | Some n \<Rightarrow>
          (let ol = flags_or_empty old in
           Some \<lparr>p_readFlag = defined_or (p_readFlag n) (p_readFlag ol),
                 p_writeFlag = defined_or (p_writeFlag n) (p_writeFlag ol),
                 p_transmitFlag = defined_or (p_transmitFlag n) (p_transmitFlag ol),
                 p_updateFlag = defined_or (p_updateFlag n) (p_updateFlag ol)\<rparr>))"

definition extend_native :: "native \<Rightarrow> native option \<Rightarrow> native" where
  "extend_native new old =
     (let ol = native_or_empty old in
      \<lparr>native_ga = defined_or (native_ga new) (native_ga ol),
       native_dpt = defined_or (native_dpt new) (native_dpt ol),
       native_flags = extend_flags (native_flags new) (native_flags ol),
       native_description = defined_or (native_description new) (native_description ol)\<rparr>)"

definition extendObject :: "js_string \<Rightarrow> common \<Rightarrow> native \<Rightarrow> objects \<Rightarrow> objects" where
  "extendObject ident c n objs =
     (case map_of objs ident of
        Some ob \<Rightarrow>
          AList.update ident
            (ob\<lparr>obj_common := Some c, obj_native := Some (extend_native n (obj_native ob))\<rparr>) objs
      | None \<Rightarrow>
          AList.update ident \<lparr>obj_type = [], obj_common = Some c, obj_native = Some n\<rparr> objs)"

definition opt_str :: "js_string option \<Rightarrow> js_value" where
  "opt_str s = (case s of None \<Rightarrow> Undefined | Some x \<Rightarrow> Str x)"

definition upsertGaState :: "entry \<Rightarrow> objects \<Rightarrow> objects" where
  "upsertGaState e objs =
     (let commonBase = inferCommonFromDpt (entry_dpt e);
          writeAllowed = (case entry_flags e of
                            None \<Rightarrow> False
                          | Some f \<Rightarrow> writeFlag f \<or> readFlag f);
          flag = (\<lambda>sel. case entry_flags e of None \<Rightarrow> False | Some f \<Rightarrow> sel f);
          c = \<lparr>common_name = entry_name e,
               common_type = fst commonBase,
               common_role = snd commonBase,
               common_read = True,
               common_write = writeAllowed\<rparr>;
          n = \<lparr>native_ga = Str (entry_ga e),
               native_dpt = opt_str (entry_dpt e),
               native_flags =
                 Some \<lparr>p_readFlag = Bool (flag readFlag),
                       p_writeFlag = Bool (flag writeFlag),
                       p_transmitFlag = Bool (flag transmitFlag),
                       p_updateFlag = Bool (flag updateFlag)\<rparr>,
               native_description = opt_str (entry_description e)\<rparr>
      in extendObject (entry_id e) c n
           (setObjectNotExists (entry_id e)
              \<lparr>obj_type = js ''state'', obj_common = Some c, obj_native = Some n\<rparr> objs))"

section \<open>Example data\<close>

text \<open>
  The scenario of the specification: one group address, referenced by a
  communication object with write and without read, and by a second one with read and
  without write, which names the address in the \<^verbatim>\<open>__groupAddressRedID\<close> variant.
\<close>

definition example_writer :: cor where
  "example_writer =
     \<lparr>isActive = Undefined, cor_readFlag = Bool False, cor_writeFlag = Bool True,
      cor_transmitFlag = Undefined, cor_updateFlag = Undefined,
      connectors = [\<lparr>send = [\<lparr>send_groupAddressRefID = Str (js ''GA-1'')\<rparr>], receive = []\<rparr>]\<rparr>"

definition example_reader :: "js_value \<Rightarrow> cor" where
  "example_reader active =
     \<lparr>isActive = active, cor_readFlag = Bool True, cor_writeFlag = Bool False,
      cor_transmitFlag = Undefined, cor_updateFlag = Undefined,
      connectors =
        [\<lparr>send = [],
          receive = [\<lparr>receive_groupAddressRefID = Undefined,
                      receive_groupAddressRedID = Str (js ''GA-1'')\<rparr>]\<rparr>]\<rparr>"

definition example_topology :: "cor option list \<Rightarrow> topology" where
  "example_topology cs =
     \<lparr>areas = [\<lparr>lines = [\<lparr>devices = [\<lparr>communicationObjectReferences = cs\<rparr>]\<rparr>]\<rparr>]\<rparr>"

text \<open>
  An adapter with two bound addresses: \<^verbatim>\<open>ga.light\<close> may be written, \<^verbatim>\<open>ga.temp\<close> may only
  be read. Its bus keeps the actions that were run; in \<open>example_call\<close> every write
  throws an \<^verbatim>\<open>Error\<close> and every read returns.
\<close>

definition light_dp :: datapoint where
  "light_dp = \<lparr>dp_ga = js ''3/400'', dp_dpt = Some (js ''1.001'')\<rparr>"

definition temp_dp :: datapoint where
  "temp_dp = \<lparr>dp_ga = js ''3/401'', dp_dpt = Some (js ''9.001'')\<rparr>"

definition example_adapter :: "(js_value, js_value, js_value tx_action list) adapter" where
  "example_adapter =
     \<lparr>namespace = js ''nexowatt-knx.0'',
      ackOnWrite = False,
      knxConnected = True,
      metaByStateId =
        [(js ''ga.light'',
          \<lparr>meta_ga = js ''3/400'', meta_dpt = Some (js ''1.001''),
           meta_flags = \<lparr>readFlag = False, writeFlag = True, transmitFlag = True,
                         updateFlag = False\<rparr>\<rparr>),
         (js ''ga.temp'',
          \<lparr>meta_ga = js ''3/401'', meta_dpt = Some (js ''9.001''),
           meta_flags = \<lparr>readFlag = True, writeFlag = False, transmitFlag = True,
                         updateFlag = False\<rparr>\<rparr>)],
      datapointsByStateId = [(js ''ga.light'', light_dp), (js ''ga.temp'', temp_dp)],
      txQueue = [],
      stateWrites = [],
      bus = [],
      logged = []\<rparr>"

definition example_call ::
  "js_value tx_action \<Rightarrow> js_value tx_action list
     \<Rightarrow> (js_thrown, js_value tx_action list) outcome" where
  "example_call act b =
     (case act of
        Write dp v \<Rightarrow>
          Threw (Object (Prim (Str (js ''not connected''))) (Some (js ''Error: not connected''))) b
      | Read dp \<Rightarrow> Returned (b @ [act]))"


definition example_row :: "js_value \<Rightarrow> row" where
  "example_row g =
     \<lparr>row_id = js ''nexowatt-knx.0.ga.light'',
      row_doc =
        Some \<lparr>obj_type = js ''state'', obj_common = None,
              obj_native =
                Some \<lparr>native_ga = g, native_dpt = Str (js ''1.001''),
                      native_flags =
                        Some \<lparr>p_readFlag = Undefined, p_writeFlag = Bool True,
                              p_transmitFlag = Undefined, p_updateFlag = Undefined\<rparr>,
                      native_description = Undefined\<rparr>\<rparr>\<rparr>"

definition example_entry :: entry where
  "example_entry =
     \<lparr>entry_id = js ''ga.temp'', entry_name = js ''Temperature'', entry_ga = js ''3/401'',
      entry_dpt = Some (js ''9.001''),
      entry_flags = Some \<lparr>readFlag = True, writeFlag = False, transmitFlag = True,
                          updateFlag = False\<rparr>,
      entry_description = None\<rparr>"

section \<open>Properties of the address rendering\<close>

lemma unat_digit: "d < 10 \<Longrightarrow> unat (digit d) = 48 + d"
  by (simp only: digit_def unat_of_nat) simp

lemma parseInt10_decimal: "parseInt10 (decimal n) = n"
proof (induction n rule: decimal.induct)
  case (1 n)
  show ?case
  proof (cases "n < 10")
    case True
    then show ?thesis
      by (simp add: decimal.simps [of n] parseInt10_def unat_digit)
  next
    case False
    with 1 have "parseInt10 (decimal (n div 10)) = n div 10" by simp
    with False show ?thesis
      by (simp add: decimal.simps [of n] parseInt10_def unat_digit)
  qed
qed

lemma decimal_inj: "decimal m = decimal n \<Longrightarrow> m = n"
  by (metis parseInt10_decimal)

lemma digit_is_digit: "d < 10 \<Longrightarrow> is_digit (digit d)"
  by (simp add: is_digit_def word_le_nat_alt unat_digit)

lemma decimal_digits: "\<forall>c \<in> set (decimal n). is_digit c"
proof (induction n rule: decimal.induct)
  case (1 n)
  then show ?case
    by (cases "n < 10") (auto simp: decimal.simps [of n] digit_is_digit)
qed

lemma slash_not_digit: "\<not> is_digit 0x2F"
  by (simp add: is_digit_def)

lemma decimal_no_slash: "0x2F \<notin> set (decimal n)"
  using decimal_digits slash_not_digit by blast

lemma split_at_unique:
  "sep \<notin> set xs \<Longrightarrow> sep \<notin> set xs' \<Longrightarrow> xs @ sep # ys = xs' @ sep # ys' \<Longrightarrow> xs = xs' \<and> ys = ys'"
proof (induction xs arbitrary: xs')
  case Nil
  then show ?case by (cases xs') auto
next
  case (Cons x xs)
  then show ?case by (cases xs') auto
qed

lemma js_slash: "js ''/'' = [0x2F]"
  by (simp add: js_def)

lemma and_ffff: "(a::int) AND 0xffff = a mod 65536"
  using take_bit_eq_mask [of 16 a] by (simp add: take_bit_eq_mod mask_eq_exp_minus_1)
lemma and_7ff: "(a::int) AND 0x7ff = a mod 2048"
  using take_bit_eq_mask [of 11 a] by (simp add: take_bit_eq_mod mask_eq_exp_minus_1)
lemma and_ff: "(a::int) AND 0xff = a mod 256"
  using take_bit_eq_mask [of 8 a] by (simp add: take_bit_eq_mod mask_eq_exp_minus_1)
lemma and_1f: "(a::int) AND 0x1f = a mod 32"
  using take_bit_eq_mask [of 5 a] by (simp add: take_bit_eq_mod mask_eq_exp_minus_1)
lemma and_07: "(a::int) AND 0x07 = a mod 8"
  using take_bit_eq_mask [of 3 a] by (simp add: take_bit_eq_mod mask_eq_exp_minus_1)

lemma number_to_string_nonneg: "0 \<le> i \<Longrightarrow> number_to_string i = decimal (nat i)"
  by (simp add: number_to_string_def)

lemma number_to_string_inj:
  "0 \<le> i \<Longrightarrow> 0 \<le> j \<Longrightarrow> number_to_string i = number_to_string j \<Longrightarrow> i = j"
  by (auto simp: number_to_string_nonneg dest: decimal_inj)

lemma two_level:
  "groupAddressNumberToString (Number a) (js ''TwoLevel'') =
     number_to_string (a mod 65536 div 2048 mod 32) @ 0x2F # number_to_string (a mod 65536 mod 2048)"
  by (simp add: groupAddressNumberToString_def Let_def and_ffff and_7ff and_1f drop_bit_eq_div js_slash)

lemma three_ne_two: "js ''ThreeLevel'' \<noteq> js ''TwoLevel''"
  by (simp add: js_def)

lemma three_level:
  "style \<noteq> js ''TwoLevel'' \<Longrightarrow> groupAddressNumberToString (Number a) style =
     number_to_string (a mod 65536 div 2048 mod 32) @ 0x2F #
     number_to_string (a mod 65536 div 256 mod 8) @ 0x2F # number_to_string (a mod 65536 mod 256)"
  by (simp add: groupAddressNumberToString_def Let_def and_ffff and_ff and_1f and_07 drop_bit_eq_div js_slash)

lemma nts_no_slash: "0 \<le> i \<Longrightarrow> 0x2F \<notin> set (number_to_string i)"
  by (simp add: number_to_string_nonneg decimal_no_slash)

lemma nts_inj_pair:
  assumes "0 \<le> i" "0 \<le> i'"
    and "number_to_string i @ 0x2F # r = number_to_string i' @ 0x2F # r'"
  shows "i = i' \<and> r = r'"
proof -
  have "number_to_string i = number_to_string i' \<and> r = r'"
    using assms(3) nts_no_slash [OF assms(1)] nts_no_slash [OF assms(2)]
    by (rule_tac split_at_unique) auto
  with assms show ?thesis by (auto dest: number_to_string_inj)
qed

lemma in_range_mod: "0 \<le> a \<Longrightarrow> a \<le> 65535 \<Longrightarrow> (a::int) mod 65536 = a"
  by simp

lemma main_mod:
  fixes a :: int
  assumes "0 \<le> a" "a \<le> 65535"
  shows "a div 2048 mod 32 = a div 2048"
proof -
  have "a div 2048 \<le> 65535 div 2048" using assms(2) by (rule zdiv_mono1) simp
  moreover have "0 \<le> a div 2048" using assms(1) by (simp add: pos_imp_zdiv_nonneg_iff)
  ultimately show ?thesis by simp
qed

lemma recombine:
  fixes a b :: int
  assumes "a div n = b div n" and "a mod n = b mod n"
  shows "a = b"
proof -
  have "a = n * (a div n) + a mod n" by (rule mult_div_mod_eq [symmetric])
  also have "\<dots> = n * (b div n) + b mod n" by (simp only: assms)
  also have "\<dots> = b" by (rule mult_div_mod_eq)
  finally show ?thesis .
qed

lemma recombine_two_level:
  fixes a b :: int
  assumes "a div 2048 = b div 2048" and "a mod 2048 = b mod 2048"
  shows "a = b"
  using assms by (rule recombine)

lemma recombine_three_level:
  fixes a b :: int
  assumes "a div 2048 = b div 2048" and "a div 256 mod 8 = b div 256 mod 8"
    and "a mod 256 = b mod 256"
  shows "a = b"
proof -
  have "a div 2048 = a div 256 div 8" "b div 2048 = b div 256 div 8"
    using zdiv_zmult2_eq [of 8 a 256] zdiv_zmult2_eq [of 8 b 256] by simp_all
  with assms(1) have "a div 256 div 8 = b div 256 div 8" by (simp only:)
  from this assms(2) have "a div 256 = b div 256" by (rule recombine)
  from this assms(3) show ?thesis by (rule recombine)
qed

lemma two_level_injective:
  assumes "0 \<le> a" "a \<le> 65535" "0 \<le> b" "b \<le> 65535"
    and eq: "groupAddressNumberToString (Number a) (js ''TwoLevel'') =
             groupAddressNumberToString (Number b) (js ''TwoLevel'')"
  shows "a = b"
proof -
  have ab: "a mod 65536 = a" "b mod 65536 = b"
    using assms(1-4) by (simp_all only: in_range_mod)
  have "number_to_string (a div 2048 mod 32) @ 0x2F # number_to_string (a mod 2048) =
        number_to_string (b div 2048 mod 32) @ 0x2F # number_to_string (b mod 2048)"
    using eq unfolding two_level ab .
  then have "a div 2048 mod 32 = b div 2048 mod 32 \<and>
             number_to_string (a mod 2048) = number_to_string (b mod 2048)"
    by (rule nts_inj_pair [rotated 2]) simp_all
  then have m: "a div 2048 mod 32 = b div 2048 mod 32"
    and "number_to_string (a mod 2048) = number_to_string (b mod 2048)"
    by (rule conjunct1, rule conjunct2)
  then have su: "a mod 2048 = b mod 2048" by (intro number_to_string_inj) simp_all
  from m have "a div 2048 = b div 2048"
    unfolding main_mod [OF assms(1,2)] main_mod [OF assms(3,4)] .
  from this su have "a = b" by (rule recombine_two_level)
  then show ?thesis .
qed

lemma three_level_injective:
  assumes "0 \<le> a" "a \<le> 65535" "0 \<le> b" "b \<le> 65535" "style \<noteq> js ''TwoLevel''"
    and eq: "groupAddressNumberToString (Number a) style =
             groupAddressNumberToString (Number b) style"
  shows "a = b"
proof -
  have ab: "a mod 65536 = a" "b mod 65536 = b"
    using assms(1-4) by (simp_all only: in_range_mod)
  have "number_to_string (a div 2048 mod 32) @ 0x2F #
          number_to_string (a div 256 mod 8) @ 0x2F # number_to_string (a mod 256) =
        number_to_string (b div 2048 mod 32) @ 0x2F #
          number_to_string (b div 256 mod 8) @ 0x2F # number_to_string (b mod 256)"
    using eq unfolding three_level [OF assms(5)] ab .
  then have 1: "a div 2048 mod 32 = b div 2048 mod 32 \<and>
        number_to_string (a div 256 mod 8) @ 0x2F # number_to_string (a mod 256) =
        number_to_string (b div 256 mod 8) @ 0x2F # number_to_string (b mod 256)"
    by (rule nts_inj_pair [rotated 2]) simp_all
  then have 2: "a div 256 mod 8 = b div 256 mod 8 \<and>
        number_to_string (a mod 256) = number_to_string (b mod 256)"
    by (intro nts_inj_pair) simp_all
  from 1 have m: "a div 2048 mod 32 = b div 2048 mod 32" by (rule conjunct1)
  from 2 have mi: "a div 256 mod 8 = b div 256 mod 8" by (rule conjunct1)
  from 2 have "number_to_string (a mod 256) = number_to_string (b mod 256)" by (rule conjunct2)
  then have su: "a mod 256 = b mod 256" by (rule number_to_string_inj [rotated 2]) simp_all
  from m have "a div 2048 = b div 2048"
    unfolding main_mod [OF assms(1,2)] main_mod [OF assms(3,4)] .
  from this mi su have "a = b" by (rule recombine_three_level)
  then show ?thesis .
qed

text \<open>
  Claim C1. For every address in [0, 65535] and each of the styles ThreeLevel and
  TwoLevel, the rendered string determines the address: two different addresses never
  render to the same string under one style.
\<close>

theorem groupAddress_rendering_injective:
  assumes "0 \<le> a" "a \<le> 65535" "0 \<le> b" "b \<le> 65535"
    and "style = js ''ThreeLevel'' \<or> style = js ''TwoLevel''"
    and "a \<noteq> b"
  shows "groupAddressNumberToString (Number a) style \<noteq> groupAddressNumberToString (Number b) style"
proof (cases "style = js ''TwoLevel''")
  case True
  with assms(1-4,6) show ?thesis using two_level_injective [of a b] by blast
next
  case False
  with assms(1-4,6) show ?thesis using three_level_injective [of a b style] by blast
qed

theorem groupAddress_rendering_injective_witness:
  "(0::int) \<le> 6544 \<and> (6545::int) \<le> 65535 \<and> (6544::int) \<noteq> 6545 \<and>
   groupAddressNumberToString (Number 6544) (js ''TwoLevel'')
     \<noteq> groupAddressNumberToString (Number 6545) (js ''TwoLevel'') \<and>
   groupAddressNumberToString (Number 6544) (js ''ThreeLevel'')
     \<noteq> groupAddressNumberToString (Number 6800) (js ''ThreeLevel'')"
  using groupAddress_rendering_injective [of 6544 6545 "js ''TwoLevel''"]
    groupAddress_rendering_injective [of 6544 6800 "js ''ThreeLevel''"]
  by simp

text \<open>
  Claim C2, as amended. For every address in [0, 65535], style \<^verbatim>\<open>'Free'\<close> has no branch
  of its own: the result is the three-level rendering main/middle/sub (5/3/8 bits), the
  same string that style \<^verbatim>\<open>'ThreeLevel'\<close> gives.
\<close>

theorem groupAddress_free_is_three_level:
  assumes "0 \<le> a" "a \<le> 65535"
  shows "groupAddressNumberToString (Number a) (js ''Free'') =
           number_to_string (a div 2048) @ js ''/'' @ number_to_string (a div 256 mod 8)
             @ js ''/'' @ number_to_string (a mod 256) \<and>
         groupAddressNumberToString (Number a) (js ''Free'') =
           groupAddressNumberToString (Number a) (js ''ThreeLevel'')"
proof -
  have f: "js ''Free'' \<noteq> js ''TwoLevel''" by (simp add: js_def)
  show ?thesis
    by (simp only: three_level [OF f] three_level [OF three_ne_two] js_slash
        in_range_mod [OF assms] main_mod [OF assms]) simp
qed

theorem groupAddress_free_is_three_level_witness:
  "(0::int) \<le> 6544 \<and> (6544::int) \<le> 65535 \<and>
   groupAddressNumberToString (Number 6544) (js ''Free'') = js ''3/1/144''"
proof -
  have "number_to_string 3 = js ''3''" "number_to_string 1 = js ''1''"
    "number_to_string 144 = js ''144''"
    by (simp_all add: number_to_string_def decimal.simps digit_def js_def)
  then show ?thesis
    using groupAddress_free_is_three_level [of 6544] by (simp add: js_def)
qed

text \<open>
  The claim as it was stated fails: under \<^verbatim>\<open>'Free'\<close> the address 6544 is rendered with
  slashes, not as its decimal digits.
\<close>

theorem groupAddress_free_not_decimal:
  "groupAddressNumberToString (Number 6544) (js ''Free'') \<noteq> number_to_string 6544"
proof -
  have f: "js ''Free'' \<noteq> js ''TwoLevel''" by (simp add: js_def)
  show ?thesis
    by (simp add: three_level [OF f] number_to_string_def decimal.simps digit_def)
qed

section \<open>Properties of sanitizeIdSegment\<close>

lemma safe_not_ws: "is_safe c \<Longrightarrow> \<not> is_white_space c"
  by (auto simp: is_safe_def is_white_space_def word_le_nat_alt)

lemma underscore_safe: "is_safe underscore"
  by (simp add: is_safe_def underscore_def)

lemma js_underscore: "js ''_'' = [underscore]"
  by (simp add: js_def underscore_def)

lemma unnamed_safe: "\<forall>c \<in> set (js ''unnamed''). is_safe c"
  by (simp add: js_def is_safe_def)

lemma replace_runs_id: "\<forall>c \<in> set xs. \<not> X c \<Longrightarrow> replace_runs X r xs = xs"
  by (induction xs) auto

lemma replace_each_id: "\<forall>c \<in> set xs. \<not> X c \<Longrightarrow> replace_each X r xs = xs"
  by (induction xs) (simp_all add: replace_each_def)

lemma dropWhile_none: "\<forall>c \<in> set xs. \<not> X c \<Longrightarrow> dropWhile X xs = xs"
  by (cases xs) auto

lemma trim_id: "\<forall>c \<in> set xs. \<not> is_white_space c \<Longrightarrow> trim xs = xs"
  by (simp add: trim_def dropWhile_none)

lemma set_replace_runs: "set (replace_runs X r xs) \<subseteq> set xs \<union> set r"
proof (induction X r xs rule: replace_runs.induct)
  case (1 X r)
  then show ?case by simp
next
  case (2 X r c cs)
  have d: "set (dropWhile X cs) \<subseteq> set cs" by (auto dest: set_dropWhileD)
  show ?case
  proof (cases "X c")
    case True
    with 2 have "set (replace_runs X r (dropWhile X cs)) \<subseteq> set (dropWhile X cs) \<union> set r"
      by simp
    with d True show ?thesis by auto
  next
    case False
    with 2 show ?thesis by auto
  qed
qed

lemma set_strip_edges: "set (strip_edges X xs) \<subseteq> set xs"
proof
  fix c
  assume "c \<in> set (strip_edges X xs)"
  then have "c \<in> set (dropWhile X (rev (dropWhile X xs)))" by (simp add: strip_edges_def)
  then have "c \<in> set (rev (dropWhile X xs))" by (rule set_dropWhileD)
  then have "c \<in> set (dropWhile X xs)" by simp
  then show "c \<in> set xs" by (rule set_dropWhileD)
qed

lemma replace_each_Cons:
  "replace_each X r (c # cs) = (if X c then r else [c]) @ replace_each X r cs"
  by (simp add: replace_each_def)

lemma replace_each_Nil: "replace_each X r [] = []"
  by (simp add: replace_each_def)

lemma replace_each_safe: "c \<in> set (replace_each (\<lambda>c. \<not> is_safe c) [underscore] xs) \<Longrightarrow> is_safe c"
proof (induction xs)
  case Nil
  then show ?case by (simp add: replace_each_Nil)
next
  case (Cons x xs)
  show ?case
  proof (cases "is_safe x")
    case True
    with Cons show ?thesis by (auto simp: replace_each_Cons)
  next
    case False
    with Cons show ?thesis by (auto simp: replace_each_Cons underscore_safe)
  qed
qed

lemma no_double_replace_runs:
  "\<not> sublist [u, u] (replace_runs (\<lambda>c. c = u) [u] xs)"
proof (induction "\<lambda>c. c = u" "[u]" xs rule: replace_runs.induct)
  case 1
  then show ?case by simp
next
  case (2 c cs)
  show ?case
  proof (cases "c = u")
    case True
    with 2 have IH: "\<not> sublist [u, u] (replace_runs (\<lambda>c. c = u) [u] (dropWhile (\<lambda>c. c = u) cs))"
      by simp
    have "\<not> prefix [u] (replace_runs (\<lambda>c. c = u) [u] (dropWhile (\<lambda>c. c = u) cs))"
    proof (cases "dropWhile (\<lambda>c. c = u) cs")
      case Nil
      show ?thesis unfolding Nil by simp
    next
      case (Cons d ds)
      then have "d \<noteq> u" using hd_dropWhile [of "\<lambda>c. c = u" cs] by auto
      then show ?thesis unfolding Cons by simp
    qed
    with IH True show ?thesis by (simp add: sublist_Cons_right)
  next
    case False
    with 2 show ?thesis by (simp add: sublist_Cons_right)
  qed
qed

lemma replace_runs_no_double:
  "\<not> sublist [u, u] xs \<Longrightarrow> replace_runs (\<lambda>c. c = u) [u] xs = xs"
proof (induction xs)
  case Nil
  then show ?case by simp
next
  case (Cons c cs)
  then have nd: "\<not> sublist [u, u] cs" by (simp add: sublist_Cons_right)
  show ?case
  proof (cases "c = u")
    case True
    with Cons.prems have "\<not> prefix [u] cs" by (simp add: sublist_Cons_right)
    then have "dropWhile (\<lambda>c. c = u) cs = cs" by (cases cs) auto
    with True nd Cons.IH show ?thesis by simp
  next
    case False
    with nd Cons.IH show ?thesis by simp
  qed
qed

lemma sublist_strip_edges: "sublist (strip_edges X xs) xs"
proof -
  have "sublist (rev (strip_edges X xs)) (rev (dropWhile X xs))"
    by (simp add: strip_edges_def)
  then have "sublist (strip_edges X xs) (dropWhile X xs)"
    by (simp only: sublist_rev)
  then show ?thesis
    using sublist_dropWhile [of X xs] by (rule sublist_order.order.trans)
qed

lemma strip_edges_idem: "strip_edges X (strip_edges X xs) = strip_edges X xs"
proof -
  define ys where "ys = dropWhile X xs"
  define zs where "zs = strip_edges X xs"
  have zs: "zs = rev (dropWhile X (rev ys))" by (simp add: zs_def ys_def strip_edges_def)
  have "dropWhile X zs = zs"
  proof (cases zs)
    case Nil
    then show ?thesis by simp
  next
    case (Cons z zs')
    have "prefix zs ys" unfolding zs
      by (metis suffix_dropWhile suffix_to_prefix rev_rev_ident)
    with Cons have "ys \<noteq> []" "hd ys = z" by (auto simp: prefix_def)
    then have "\<not> X z" using hd_dropWhile [of X xs] by (simp add: ys_def)
    with Cons show ?thesis by simp
  qed
  then have "strip_edges X zs = rev (dropWhile X (rev zs))" by (simp add: strip_edges_def)
  also have "\<dots> = zs" by (simp add: zs)
  finally show ?thesis by (simp add: zs_def)
qed

lemma sanitized_safe: "c \<in> set (sanitized n) \<Longrightarrow> is_safe c"
proof -
  let ?m = "replace_each (\<lambda>c. \<not> is_safe c) [underscore] (replace_runs is_white_space [underscore] (trim n))"
  assume "c \<in> set (sanitized n)"
  then have "c \<in> set (replace_runs (\<lambda>c. c = underscore) [underscore] ?m)"
    unfolding sanitized_def js_underscore using set_strip_edges by blast
  then have "c \<in> set ?m \<union> set [underscore]"
    using set_replace_runs by blast
  then have "c \<in> set ?m \<or> c = underscore" by auto
  then show "is_safe c"
    using replace_each_safe underscore_safe by blast
qed

lemma sanitized_no_double: "\<not> sublist [underscore, underscore] (sanitized n)"
proof
  assume "sublist [underscore, underscore] (sanitized n)"
  then have "sublist [underscore, underscore]
     (replace_runs (\<lambda>c. c = underscore) [underscore]
       (replace_each (\<lambda>c. \<not> is_safe c) (js ''_'') (replace_runs is_white_space (js ''_'') (trim n))))"
    unfolding sanitized_def js_underscore
    using sublist_strip_edges sublist_order.order.trans by blast
  then show False using no_double_replace_runs by blast
qed

lemma sanitized_fixed: "sanitized (sanitized n) = sanitized n"
proof -
  let ?r = "sanitized n"
  have safe: "\<forall>c \<in> set ?r. is_safe c" using sanitized_safe by blast
  then have ws: "\<forall>c \<in> set ?r. \<not> is_white_space c" using safe_not_ws by blast
  have 1: "trim ?r = ?r" using ws by (rule trim_id)
  have 2: "replace_runs is_white_space (js ''_'') ?r = ?r" using ws by (rule replace_runs_id)
  have 3: "replace_each (\<lambda>c. \<not> is_safe c) (js ''_'') ?r = ?r"
    using safe by (intro replace_each_id) simp
  have 4: "replace_runs (\<lambda>c. c = underscore) (js ''_'') ?r = ?r"
    unfolding js_underscore using sanitized_no_double by (rule replace_runs_no_double)
  have 5: "strip_edges (\<lambda>c. c = underscore) ?r = ?r"
    unfolding sanitized_def by (rule strip_edges_idem)
  show ?thesis
    by (subst (1) sanitized_def) (simp only: 1 2 3 4 5)
qed

lemma sanitized_unnamed: "sanitized (js ''unnamed'') = js ''unnamed''"
  by (simp add: sanitized_def js_def trim_def is_white_space_def replace_each_def is_safe_def
      underscore_def strip_edges_def)

text \<open>
  Claim C8. For every input, the result of \<open>sanitizeIdSegment\<close> is not empty and holds
  only code units of the safe set (ASCII letters, digits, underscore, hyphen); where the
  chain of replacements leaves nothing, the result is the literal \<^verbatim>\<open>unnamed\<close>.
\<close>

theorem sanitizeIdSegment_safe_nonempty:
  "sanitizeIdSegment name \<noteq> [] \<and> list_all is_safe (sanitizeIdSegment name) \<and>
   (\<forall>n. name = Str n \<and> sanitized n = [] \<longrightarrow> sanitizeIdSegment name = js ''unnamed'')"
proof -
  have ne: "js ''unnamed'' \<noteq> []" by (simp add: js_def)
  show ?thesis
    using sanitized_safe unnamed_safe ne
    by (cases name) (auto simp: sanitizeIdSegment_def Let_def list_all_iff)
qed

theorem sanitizeIdSegment_safe_nonempty_witness:
  "sanitized (js '' _/ '') = [] \<and>
   sanitizeIdSegment (Str (js '' _/ '')) = js ''unnamed'' \<and>
   sanitizeIdSegment (Str (js '' Living  Room/1 '')) = js ''Living_Room_1'' \<and>
   list_all is_safe (js ''Living_Room_1'')"
proof -
  have e: "sanitized (js '' _/ '') = []"
    by (simp add: sanitizeIdSegment_def sanitized_def js_def trim_def is_white_space_def replace_each_def
        is_safe_def underscore_def strip_edges_def)
  have l: "sanitizeIdSegment (Str (js '' Living  Room/1 '')) = js ''Living_Room_1''"
    by (simp add: sanitizeIdSegment_def sanitized_def js_def trim_def is_white_space_def replace_each_def
        is_safe_def underscore_def strip_edges_def)
  from e have "sanitizeIdSegment (Str (js '' _/ '')) = js ''unnamed''"
    using sanitizeIdSegment_safe_nonempty [of "Str (js '' _/ '')"] by blast
  moreover have "list_all is_safe (js ''Living_Room_1'')"
    using sanitizeIdSegment_safe_nonempty [of "Str (js '' Living  Room/1 '')"]
    unfolding l by blast
  ultimately show ?thesis using e l by blast
qed

text \<open>
  Claim C9. \<open>sanitizeIdSegment\<close> is idempotent: sanitizing its own result changes
  nothing.
\<close>

theorem sanitizeIdSegment_idempotent:
  "sanitizeIdSegment (Str (sanitizeIdSegment name)) = sanitizeIdSegment name"
proof -
  have un: "sanitizeIdSegment (Str (js ''unnamed'')) = js ''unnamed''"
    by (simp add: sanitizeIdSegment_def sanitized_unnamed)
  show ?thesis
  proof (cases "\<exists>n. name = Str n \<and> sanitized n \<noteq> []")
    case True
    then obtain n where n: "name = Str n" "sanitized n \<noteq> []" by blast
    then have "sanitizeIdSegment name = sanitized n" by (simp add: sanitizeIdSegment_def)
    moreover have "sanitizeIdSegment (Str (sanitized n)) = sanitized n"
      using n by (simp add: sanitizeIdSegment_def sanitized_fixed)
    ultimately show ?thesis by simp
  next
    case False
    then have "sanitizeIdSegment name = js ''unnamed''"
      by (cases name) (auto simp: sanitizeIdSegment_def)
    with un show ?thesis by simp
  qed
qed

theorem sanitizeIdSegment_idempotent_witness:
  "sanitizeIdSegment (Str (js ''a__b c'')) = js ''a_b_c'' \<and>
   sanitizeIdSegment (Str (js ''a_b_c'')) = js ''a_b_c''"
proof -
  have e: "sanitizeIdSegment (Str (js ''a__b c'')) = js ''a_b_c''"
    by (simp add: sanitizeIdSegment_def sanitized_def js_def trim_def is_white_space_def replace_each_def
        is_safe_def underscore_def strip_edges_def)
  have "sanitizeIdSegment (Str (sanitizeIdSegment (Str (js ''a__b c'')))) =
        sanitizeIdSegment (Str (js ''a__b c''))"
    by (rule sanitizeIdSegment_idempotent)
  then have "sanitizeIdSegment (Str (js ''a_b_c'')) = js ''a_b_c''"
    unfolding e .
  with e show ?thesis by blast
qed

section \<open>Properties of the flag aggregation\<close>

lemma flags_le_refl: "flags_le f f"
  by (simp add: flags_le_def)

lemma flags_le_trans: "flags_le f g \<Longrightarrow> flags_le g h \<Longrightarrow> flags_le f h"
  by (simp add: flags_le_def)

lemma flags_map_le_iff:
  "flags_map_le m m' \<longleftrightarrow>
     (\<forall>gaId f. map_of m gaId = Some f \<longrightarrow> (\<exists>g. map_of m' gaId = Some g \<and> flags_le f g))"
proof
  assume le: "flags_map_le m m'"
  show "\<forall>gaId f. map_of m gaId = Some f \<longrightarrow> (\<exists>g. map_of m' gaId = Some g \<and> flags_le f g)"
  proof (intro allI impI)
    fix gaId f
    assume f: "map_of m gaId = Some f"
    then have "gaId \<in> set (map fst m)"
      by (metis map_of_eq_None_iff option.distinct(1) set_map)
    with le have "case map_of m gaId of None \<Rightarrow> True
        | Some f \<Rightarrow> (case map_of m' gaId of None \<Rightarrow> False | Some g \<Rightarrow> flags_le f g)"
      unfolding flags_map_le_def list_all_iff by blast
    with f show "\<exists>g. map_of m' gaId = Some g \<and> flags_le f g"
      by (simp split: option.splits)
  qed
next
  assume "\<forall>gaId f. map_of m gaId = Some f \<longrightarrow> (\<exists>g. map_of m' gaId = Some g \<and> flags_le f g)"
  then show "flags_map_le m m'"
    by (fastforce simp: flags_map_le_def list_all_iff split: option.splits)
qed

lemma flags_map_le_refl: "flags_map_le m m"
  by (auto simp: flags_map_le_iff flags_le_refl)

lemma flags_map_le_trans: "flags_map_le m m' \<Longrightarrow> flags_map_le m' m'' \<Longrightarrow> flags_map_le m m''"
  unfolding flags_map_le_iff by (meson flags_le_trans)

lemma aggregate_le: "flags_map_le m (aggregate m k fl)"
  by (auto simp: flags_map_le_iff aggregate_def Let_def update_conv' flags_le_def)

lemma aggregate_mono: "flags_map_le m m' \<Longrightarrow> flags_map_le (aggregate m k fl) (aggregate m' k fl)"
  unfolding flags_map_le_iff
  by (auto simp: aggregate_def Let_def update_conv' flags_le_def split: option.splits) fastforce+

lemma foldl_le:
  assumes "\<And>m x. flags_map_le m (f m x)"
  shows "flags_map_le m (foldl f m xs)"
proof (induction xs arbitrary: m)
  case Nil
  show ?case by (simp add: flags_map_le_refl)
next
  case (Cons x xs)
  show ?case using assms [of m x] Cons [of "f m x"] by (auto intro: flags_map_le_trans)
qed

lemma foldl_mono:
  assumes "\<And>m m' x. flags_map_le m m' \<Longrightarrow> flags_map_le (f m x) (f m' x)"
  shows "flags_map_le m m' \<Longrightarrow> flags_map_le (foldl f m xs) (foldl f m' xs)"
  by (induction xs arbitrary: m m') (auto intro: assms)

lemma send_step_le: "flags_map_le m (send_step fl m s)"
  by (simp add: send_step_def Let_def aggregate_le flags_map_le_refl)

lemma receive_step_le: "flags_map_le m (receive_step fl m r)"
  by (simp add: receive_step_def Let_def aggregate_le flags_map_le_refl)

lemma send_step_mono: "flags_map_le m m' \<Longrightarrow> flags_map_le (send_step fl m s) (send_step fl m' s)"
  by (simp add: send_step_def Let_def aggregate_mono)

lemma receive_step_mono: "flags_map_le m m' \<Longrightarrow> flags_map_le (receive_step fl m r) (receive_step fl m' r)"
  by (simp add: receive_step_def Let_def aggregate_mono)

lemma connector_step_le: "flags_map_le m (connector_step fl m c)"
  unfolding connector_step_def
  by (rule flags_map_le_trans [OF foldl_le foldl_le]) (rule send_step_le receive_step_le)+

lemma connector_step_mono:
  "flags_map_le m m' \<Longrightarrow> flags_map_le (connector_step fl m c) (connector_step fl m' c)"
  unfolding connector_step_def
  by (intro foldl_mono receive_step_mono send_step_mono)

lemma cor_step_le: "flags_map_le m (cor_step m c)"
  by (auto simp: cor_step_def Let_def flags_map_le_refl split: option.splits
      intro!: foldl_le connector_step_le)

lemma cor_step_mono: "flags_map_le m m' \<Longrightarrow> flags_map_le (cor_step m c) (cor_step m' c)"
  by (auto simp: cor_step_def Let_def split: option.splits
      intro!: foldl_mono connector_step_mono)

lemma cor_step_inactive: "isActive r = Bool False \<Longrightarrow> cor_step m (Some r) = m"
  by (simp add: cor_step_def)

lemma foldl_concat_map: "foldl f m (concat (map g xs)) = foldl (\<lambda>m x. foldl f m (g x)) m xs"
  by (induction xs arbitrary: m) auto

lemma build_references:
  "buildFlagsByGroupAddressId result = foldl cor_step [] (references result)"
proof -
  have d: "device_step = (\<lambda>m d. foldl cor_step m (communicationObjectReferences d))"
    by (intro ext) (simp add: device_step_def)
  have l: "line_step = (\<lambda>m l. foldl device_step m (devices l))"
    by (intro ext) (simp add: line_step_def)
  have a: "area_step = (\<lambda>m a. foldl line_step m (lines a))"
    by (intro ext) (simp add: area_step_def)
  show ?thesis
    unfolding buildFlagsByGroupAddressId_def references_def foldl_concat_map
    by (simp only: a [symmetric] l [symmetric] d [symmetric])
qed

lemma build_additional_reference:
  assumes "references t' = xs @ c # ys" and "references t = xs @ ys"
  shows "flags_map_le (buildFlagsByGroupAddressId t) (buildFlagsByGroupAddressId t')"
proof -
  let ?m = "foldl cor_step [] xs"
  have "flags_map_le (foldl cor_step ?m ys) (foldl cor_step (cor_step ?m c) ys)"
    by (intro foldl_mono cor_step_mono cor_step_le)
  then show ?thesis
    by (simp add: build_references assms)
qed

lemma build_inactive_reference:
  assumes "references t' = xs @ Some r # ys" and "references t = xs @ ys"
    and "isActive r = Bool False"
  shows "buildFlagsByGroupAddressId t' = buildFlagsByGroupAddressId t"
  by (simp add: build_references assms cor_step_inactive)

text \<open>
  Claim C3. Let the topology \<open>t'\<close> hold one reference more than \<open>t\<close>, anywhere in the
  order of traversal. Then every identifier with an aggregate for \<open>t\<close> has one for
  \<open>t'\<close>, and none of the four flags that is set for \<open>t\<close> is clear for \<open>t'\<close>. If the
  additional reference has \<^verbatim>\<open>isActive === false\<close>, the two maps are the same.
\<close>

theorem flag_aggregation_monotone:
  assumes "references t' = xs @ c # ys" and "references t = xs @ ys"
  shows "(\<forall>gaId f. map_of (buildFlagsByGroupAddressId t) gaId = Some f \<longrightarrow>
            (\<exists>g. map_of (buildFlagsByGroupAddressId t') gaId = Some g \<and>
                 (readFlag f \<longrightarrow> readFlag g) \<and> (writeFlag f \<longrightarrow> writeFlag g) \<and>
                 (transmitFlag f \<longrightarrow> transmitFlag g) \<and> (updateFlag f \<longrightarrow> updateFlag g))) \<and>
         (\<forall>r. c = Some r \<and> isActive r = Bool False \<longrightarrow>
              buildFlagsByGroupAddressId t' = buildFlagsByGroupAddressId t)"
proof (intro conjI allI impI)
  fix gaId f
  assume "map_of (buildFlagsByGroupAddressId t) gaId = Some f"
  moreover have "flags_map_le (buildFlagsByGroupAddressId t) (buildFlagsByGroupAddressId t')"
    using assms by (rule build_additional_reference)
  ultimately have "\<exists>g. map_of (buildFlagsByGroupAddressId t') gaId = Some g \<and> flags_le f g"
    unfolding flags_map_le_iff by blast
  then show "\<exists>g. map_of (buildFlagsByGroupAddressId t') gaId = Some g \<and>
                 (readFlag f \<longrightarrow> readFlag g) \<and> (writeFlag f \<longrightarrow> writeFlag g) \<and>
                 (transmitFlag f \<longrightarrow> transmitFlag g) \<and> (updateFlag f \<longrightarrow> updateFlag g)"
    unfolding flags_le_def .
next
  fix r
  assume "c = Some r \<and> isActive r = Bool False"
  with assms show "buildFlagsByGroupAddressId t' = buildFlagsByGroupAddressId t"
    using build_inactive_reference [of t' xs r ys t] by blast
qed

theorem flag_aggregation_monotone_witness:
  "map_of (buildFlagsByGroupAddressId (example_topology [Some example_writer])) (Str (js ''GA-1''))
     = Some \<lparr>readFlag = False, writeFlag = True, transmitFlag = False, updateFlag = False\<rparr> \<and>
   (\<exists>g. map_of (buildFlagsByGroupAddressId
               (example_topology [Some example_writer, Some (example_reader (Bool True))]))
            (Str (js ''GA-1'')) = Some g \<and> writeFlag g) \<and>
   buildFlagsByGroupAddressId
     (example_topology [Some example_writer, Some (example_reader (Bool False))])
     = buildFlagsByGroupAddressId (example_topology [Some example_writer])"
proof -
  have r0: "references (example_topology [Some example_writer]) = [Some example_writer] @ []"
    by (simp add: references_def example_topology_def)
  have r1: "references (example_topology [Some example_writer, Some (example_reader a)])
              = [Some example_writer] @ Some (example_reader a) # []" for a
    by (simp add: references_def example_topology_def)
  have b0: "map_of (buildFlagsByGroupAddressId (example_topology [Some example_writer]))
              (Str (js ''GA-1''))
            = Some \<lparr>readFlag = False, writeFlag = True, transmitFlag = False, updateFlag = False\<rparr>"
    by (simp add: buildFlagsByGroupAddressId_def example_topology_def area_step_def
        line_step_def device_step_def cor_step_def example_writer_def connector_step_def
        send_step_def aggregate_def js_def)
  have i: "isActive (example_reader (Bool False)) = Bool False"
    by (simp add: example_reader_def)
  from flag_aggregation_monotone [OF r1 r0, of "Bool True"] b0
  have "\<exists>g. map_of (buildFlagsByGroupAddressId
               (example_topology [Some example_writer, Some (example_reader (Bool True))]))
            (Str (js ''GA-1'')) = Some g \<and> writeFlag g"
    by fastforce
  moreover from flag_aggregation_monotone [OF r1 r0, of "Bool False"] i
  have "buildFlagsByGroupAddressId
     (example_topology [Some example_writer, Some (example_reader (Bool False))])
     = buildFlagsByGroupAddressId (example_topology [Some example_writer])"
    by blast
  ultimately show ?thesis using b0 by blast
qed

section \<open>Properties of the adapter\<close>

lemma js_literals_nonempty: "js ''write '' \<noteq> []" "js ''read '' \<noteq> []"
  by (simp_all add: js_def)

text \<open>
  Claim C4. A state-change event whose \<^verbatim>\<open>ack\<close> is set leaves the adapter as it was: no
  job joins the transmit queue and nothing is written to the store.
\<close>

theorem onStateChange_acknowledged:
  assumes "ack st"
  shows "onStateChange coerce a idFull (Some st) = a \<and>
         txQueue (onStateChange coerce a idFull (Some st)) = txQueue a \<and>
         stateWrites (onStateChange coerce a idFull (Some st)) = stateWrites a"
  using assms by (simp add: onStateChange_def)

theorem onStateChange_acknowledged_witness:
  "ack \<lparr>val = Bool True, ack = True\<rparr> \<and>
   onStateChange (\<lambda>v d. v) example_adapter (js ''nexowatt-knx.0.ga.light'')
     (Some \<lparr>val = Bool True, ack = True\<rparr>) = example_adapter"
  using onStateChange_acknowledged
    [of "\<lparr>val = Bool True, ack = True\<rparr>" "\<lambda>v d. v" example_adapter "js ''nexowatt-knx.0.ga.light''"]
  by simp

text \<open>
  Claim C5. A state-change event that is not acknowledged, under the \<^verbatim>\<open>ga.\<close> names of
  the adapter's namespace, with a mapping record and a bound datapoint: if the write
  flag is set, a write job with the coerced value joins the queue; if it is clear and
  the read flag is set, a read job joins the queue; if both are clear, the queue stays
  as it is.
\<close>

theorem onStateChange_command:
  assumes "\<not> ack st"
    and "idFull = namespace a @ js ''.'' @ idRel"
    and "prefix (js ''ga.'') idRel"
    and "map_of (metaByStateId a) idRel = Some meta"
    and "map_of (datapointsByStateId a) idRel = Some dp"
  shows "txQueue (onStateChange coerce a idFull (Some st)) =
     (if writeFlag (meta_flags meta) then
        txQueue a @ [\<lparr>fn = Write dp (coerce (val st) (meta_dpt meta)),
                      descr = js ''write '' @ meta_ga meta\<rparr>]
      else if readFlag (meta_flags meta) then
        txQueue a @ [\<lparr>fn = Read dp, descr = js ''read '' @ meta_ga meta\<rparr>]
      else txQueue a)"
  using assms(1,3,4,5) unfolding assms(2)
  by (simp add: onStateChange_def Let_def enqueueKnx_def setState_def log_to_def js_literals_nonempty)

theorem onStateChange_command_witness:
  "txQueue (onStateChange (\<lambda>v d. v) example_adapter (js ''nexowatt-knx.0.ga.temp'')
      (Some \<lparr>val = Number 1, ack = False\<rparr>))
     = [\<lparr>fn = Read temp_dp, descr = js ''read 3/401''\<rparr>] \<and>
   txQueue (onStateChange (\<lambda>v d. v) example_adapter (js ''nexowatt-knx.0.ga.light'')
      (Some \<lparr>val = Number 1, ack = False\<rparr>))
     = [\<lparr>fn = Write light_dp (Number 1), descr = js ''write 3/400''\<rparr>]"
proof -
  let ?st = "\<lparr>val = Number 1, ack = False\<rparr>"
  have t: "js ''nexowatt-knx.0.ga.temp'' = namespace example_adapter @ js ''.'' @ js ''ga.temp''"
    and l: "js ''nexowatt-knx.0.ga.light'' = namespace example_adapter @ js ''.'' @ js ''ga.light''"
    by (simp_all add: example_adapter_def js_def)
  have p: "prefix (js ''ga.'') (js ''ga.temp'')" "prefix (js ''ga.'') (js ''ga.light'')"
    by (simp_all add: js_def)
  have mt: "map_of (metaByStateId example_adapter) (js ''ga.temp'') =
        Some \<lparr>meta_ga = js ''3/401'', meta_dpt = Some (js ''9.001''),
           meta_flags = \<lparr>readFlag = True, writeFlag = False, transmitFlag = True,
                         updateFlag = False\<rparr>\<rparr>"
    and ml: "map_of (metaByStateId example_adapter) (js ''ga.light'') =
        Some \<lparr>meta_ga = js ''3/400'', meta_dpt = Some (js ''1.001''),
           meta_flags = \<lparr>readFlag = False, writeFlag = True, transmitFlag = True,
                         updateFlag = False\<rparr>\<rparr>"
    and dt: "map_of (datapointsByStateId example_adapter) (js ''ga.temp'') = Some temp_dp"
    and dl: "map_of (datapointsByStateId example_adapter) (js ''ga.light'') = Some light_dp"
    by (simp_all add: example_adapter_def js_def)
  have q: "txQueue example_adapter = []" by (simp add: example_adapter_def)
  have n: "\<not> ack ?st" by simp
  have s: "js ''read '' @ js ''3/401'' = js ''read 3/401''"
    "js ''write '' @ js ''3/400'' = js ''write 3/400''"
    by (simp_all add: js_def)
  show ?thesis
    using onStateChange_command [OF n t p(1) mt dt, of "\<lambda>v d. v"]
      onStateChange_command [OF n l p(2) ml dl, of "\<lambda>v d. v"]
    by (simp add: q s)
qed

lemma txTick_dequeues:
  assumes "knxConnected a" and "txQueue a = job # rest"
  shows "\<exists>a1. (txTick call a = Returned a1 \<or> txTick call a = Threw TypeError a1) \<and>
           txQueue a1 = rest \<and> knxConnected a1 \<and>
           bus a1 = (case call (fn job) (bus a) of Returned b \<Rightarrow> b | Threw e b \<Rightarrow> b)"
proof (cases "call (fn job) (bus a)")
  case (Returned b)
  with assms show ?thesis by (simp add: txTick_def)
next
  case (Threw e b)
  show ?thesis
  proof (cases "render_thrown e")
    case None
    with Threw assms show ?thesis by (simp add: txTick_def)
  next
    case (Some rendered)
    with Threw assms show ?thesis by (simp add: txTick_def log_to_def)
  qed
qed

lemma txTick_fifo:
  assumes "knxConnected a" and "txQueue a = job # job2 # rest"
  shows "\<exists>a1 a2.
           (txTick call a = Returned a1 \<or> txTick call a = Threw TypeError a1) \<and>
           (txTick call a1 = Returned a2 \<or> txTick call a1 = Threw TypeError a2) \<and>
           txQueue a2 = rest \<and>
           bus a2 = (case call (fn job2) (bus a1) of Returned b \<Rightarrow> b | Threw e b \<Rightarrow> b)"
proof -
  from txTick_dequeues [OF assms, of call]
  obtain a1 where a1: "txTick call a = Returned a1 \<or> txTick call a = Threw TypeError a1"
    and q1: "txQueue a1 = job2 # rest" and c1: "knxConnected a1"
    by blast
  from txTick_dequeues [OF c1 q1, of call]
  obtain a2 where "txTick call a1 = Returned a2 \<or> txTick call a1 = Threw TypeError a2"
    "txQueue a2 = rest"
    "bus a2 = (case call (fn job2) (bus a1) of Returned b \<Rightarrow> b | Threw e b \<Rightarrow> b)"
    by blast
  with a1 show ?thesis by blast
qed

lemma txTick_renderable_throw:
  assumes "knxConnected a" and "txQueue a = job # rest"
    and "call (fn job) (bus a) = Threw e b" and "render_thrown e = Some rendered"
  shows "txTick call a =
           Returned (log_to Warn (js ''KNX TX failed ('' @ descr job @ js ''): '' @ rendered)
                       (a\<lparr>txQueue := rest, bus := b\<rparr>))"
  using assms by (simp add: txTick_def)

lemma txTick_unrenderable_throw:
  assumes "knxConnected a" and "txQueue a = job # rest"
    and "call (fn job) (bus a) = Threw e b" and "render_thrown e = None"
  shows "txTick call a = Threw TypeError (a\<lparr>txQueue := rest, bus := b\<rparr>)"
  using assms by (simp add: txTick_def)

lemma render_error_object:
  "render_thrown (Object (Prim (Str (js ''not connected''))) (Some (js ''Error: not connected'')))
     = Some (js ''not connected'')"
  by (simp add: render_thrown_def js_def)

lemma render_symbol: "render_thrown Symbol = None"
  by (simp add: render_thrown_def)

lemma render_bare_object: "render_thrown (Object (Prim Undefined) None) = None"
  by (simp add: render_thrown_def)


lemma txTick_error_logged:
  "txTick example_call
     (example_adapter\<lparr>txQueue :=
        [\<lparr>fn = Write light_dp (Bool True), descr = js ''write 3/400''\<rparr>,
         \<lparr>fn = Read temp_dp, descr = js ''read 3/401''\<rparr>]\<rparr>)
   = Returned
       (example_adapter
          \<lparr>txQueue := [\<lparr>fn = Read temp_dp, descr = js ''read 3/401''\<rparr>],
            logged := [(Warn, js ''KNX TX failed (write 3/400): not connected'')]\<rparr>)"
  by (simp add: txTick_def example_call_def example_adapter_def render_thrown_def log_to_def
      js_def)

lemma rebuildRuntimeMapping_meta:
  "metaByStateId (rebuildRuntimeMapping a rows) = foldl (rebuild_step (namespace a)) [] rows"
  by (simp add: rebuildRuntimeMapping_def Let_def log_to_def)

lemma rebuildRuntimeMapping_snoc:
  "metaByStateId (rebuildRuntimeMapping a (rows @ [r])) =
     rebuild_step (namespace a) (metaByStateId (rebuildRuntimeMapping a rows)) r"
  by (simp add: rebuildRuntimeMapping_meta)

lemma row_record_Some_iff:
  "row_record ns r \<noteq> None \<longleftrightarrow>
      (\<exists>ob. row_doc r = Some ob \<and> obj_type ob = js ''state'' \<and>
            truthy (native_ga (native_or_empty (obj_native ob))))"
  by (auto simp: row_record_def Let_def split: option.splits if_splits)

lemma row_record_defaults:
  assumes "row_record ns r = Some (idRel, mr)" and "row_doc r = Some ob"
  shows "let pf = flags_or_empty (native_flags (native_or_empty (obj_native ob))) in
         (p_transmitFlag pf = Undefined \<longrightarrow> transmitFlag (meta_flags mr)) \<and>
         (p_readFlag pf = Undefined \<longrightarrow> \<not> readFlag (meta_flags mr)) \<and>
         (p_writeFlag pf = Undefined \<longrightarrow> \<not> writeFlag (meta_flags mr)) \<and>
         (p_updateFlag pf = Undefined \<longrightarrow> \<not> updateFlag (meta_flags mr))"
  using assms by (auto simp: row_record_def Let_def split: option.splits if_splits)

lemma rebuild_step_skip: "row_record ns r = None \<Longrightarrow> rebuild_step ns m r = m"
  by (simp add: rebuild_step_def)

lemma rebuild_step_set:
  "row_record ns r = Some (idRel, mr) \<Longrightarrow> map_of (rebuild_step ns m r) idRel = Some mr"
  by (simp add: rebuild_step_def update_conv')

lemma rebuild_step_other:
  assumes "\<forall>mr'. row_record ns r \<noteq> Some (k, mr')"
  shows "map_of (rebuild_step ns m r) k = map_of m k"
proof (cases "row_record ns r")
  case None
  then show ?thesis by (simp add: rebuild_step_def)
next
  case (Some p)
  obtain k' v where p: "p = (k', v)" by (cases p)
  with Some assms have "k' \<noteq> k" by auto
  with Some p show ?thesis by (simp add: rebuild_step_def update_conv')
qed

lemma rebuild_foldl_keeps:
  assumes "\<forall>r' \<in> set post. \<forall>mr'. row_record ns r' \<noteq> Some (k, mr')"
  shows "map_of (foldl (rebuild_step ns) m post) k = map_of m k"
  using assms
proof (induction post arbitrary: m)
  case Nil
  show ?case by simp
next
  case (Cons x xs)
  then have "map_of (foldl (rebuild_step ns) (rebuild_step ns m x) xs) k =
             map_of (rebuild_step ns m x) k"
    by simp
  also have "\<dots> = map_of m k"
    using Cons.prems by (intro rebuild_step_other) simp
  finally show ?case by simp
qed

lemma rebuild_foldl_origin:
  assumes "map_of (foldl (rebuild_step ns) m rows) k = Some mr"
  shows "map_of m k = Some mr \<or> (\<exists>r \<in> set rows. row_record ns r = Some (k, mr))"
  using assms
proof (induction rows arbitrary: m)
  case Nil
  then show ?case by simp
next
  case (Cons x xs)
  from Cons.prems have "map_of (foldl (rebuild_step ns) (rebuild_step ns m x) xs) k = Some mr"
    by simp
  then have "map_of (rebuild_step ns m x) k = Some mr \<or>
             (\<exists>r \<in> set xs. row_record ns r = Some (k, mr))"
    by (rule Cons.IH)
  then show ?case
  proof
    assume s: "map_of (rebuild_step ns m x) k = Some mr"
    show ?thesis
    proof (cases "row_record ns x")
      case None
      with s show ?thesis by (simp add: rebuild_step_def)
    next
      case (Some p)
      obtain k' v where p: "p = (k', v)" by (cases p)
      show ?thesis
      proof (cases "k' = k")
        case True
        with s Some p have "v = mr" by (simp add: rebuild_step_def update_conv')
        with True Some p show ?thesis by simp
      next
        case False
        with s Some p have "map_of m k = Some mr" by (simp add: rebuild_step_def update_conv')
        then show ?thesis by simp
      qed
    qed
  next
    assume "\<exists>r \<in> set xs. row_record ns r = Some (k, mr)"
    then show ?thesis by auto
  qed
qed

text \<open>
  Claim C7. Let \<open>r\<close> be an entry among the rows that a rebuild scans. If \<open>r\<close> is not a
  state object with a recorded (truthy) \<^verbatim>\<open>native.ga\<close>, the rebuilt mapping is the one
  that the rows without \<open>r\<close> give. If it is, the scan stores a record under the entry's
  relative identifier, and the rebuilt mapping holds that record unless a later row
  has the same identifier; on the record, transmit is true where the persisted field is
  absent, and read, write and update are false where theirs is. Every record of the
  rebuilt mapping comes from such an entry.
\<close>

theorem rebuild_row_contributes:
  assumes "rows = pre @ r # post"
  shows
    "(\<not> (\<exists>ob. row_doc r = Some ob \<and> obj_type ob = js ''state'' \<and>
             truthy (native_ga (native_or_empty (obj_native ob)))) \<longrightarrow>
        metaByStateId (rebuildRuntimeMapping a rows) =
        metaByStateId (rebuildRuntimeMapping a (pre @ post))) \<and>
     (\<forall>ob. row_doc r = Some ob \<and> obj_type ob = js ''state'' \<and>
           truthy (native_ga (native_or_empty (obj_native ob))) \<longrightarrow>
        (\<exists>idRel mr.
           row_record (namespace a) r = Some (idRel, mr) \<and>
           map_of (metaByStateId (rebuildRuntimeMapping a (pre @ [r]))) idRel = Some mr \<and>
           ((\<forall>r' \<in> set post. \<forall>mr'. row_record (namespace a) r' \<noteq> Some (idRel, mr')) \<longrightarrow>
              map_of (metaByStateId (rebuildRuntimeMapping a rows)) idRel = Some mr) \<and>
           (let pf = flags_or_empty (native_flags (native_or_empty (obj_native ob))) in
              (p_transmitFlag pf = Undefined \<longrightarrow> transmitFlag (meta_flags mr)) \<and>
              (p_readFlag pf = Undefined \<longrightarrow> \<not> readFlag (meta_flags mr)) \<and>
              (p_writeFlag pf = Undefined \<longrightarrow> \<not> writeFlag (meta_flags mr)) \<and>
              (p_updateFlag pf = Undefined \<longrightarrow> \<not> updateFlag (meta_flags mr))))) \<and>
     (\<forall>idRel mr. map_of (metaByStateId (rebuildRuntimeMapping a rows)) idRel = Some mr \<longrightarrow>
        (\<exists>r' \<in> set rows. \<exists>ob. row_doc r' = Some ob \<and> obj_type ob = js ''state'' \<and>
             truthy (native_ga (native_or_empty (obj_native ob))) \<and>
             row_record (namespace a) r' = Some (idRel, mr)))"
proof (intro conjI allI impI)
  assume "\<not> (\<exists>ob. row_doc r = Some ob \<and> obj_type ob = js ''state'' \<and>
             truthy (native_ga (native_or_empty (obj_native ob))))"
  then have "row_record (namespace a) r = None"
    using row_record_Some_iff [of "namespace a" r] by blast
  then have "rebuild_step (namespace a) m r = m" for m
    by (rule rebuild_step_skip)
  then show "metaByStateId (rebuildRuntimeMapping a rows) =
        metaByStateId (rebuildRuntimeMapping a (pre @ post))"
    by (simp add: rebuildRuntimeMapping_meta assms)
next
  fix ob
  assume ob: "row_doc r = Some ob \<and> obj_type ob = js ''state'' \<and>
           truthy (native_ga (native_or_empty (obj_native ob)))"
  then have "row_record (namespace a) r \<noteq> None"
    using row_record_Some_iff [of "namespace a" r] by blast
  then obtain idRel mr where rr: "row_record (namespace a) r = Some (idRel, mr)"
    by (cases "row_record (namespace a) r") auto
  have 1: "map_of (metaByStateId (rebuildRuntimeMapping a (pre @ [r]))) idRel = Some mr"
    unfolding rebuildRuntimeMapping_snoc using rr by (rule rebuild_step_set)
  have 2: "map_of (metaByStateId (rebuildRuntimeMapping a rows)) idRel = Some mr"
    if "\<forall>r' \<in> set post. \<forall>mr'. row_record (namespace a) r' \<noteq> Some (idRel, mr')"
  proof -
    have "metaByStateId (rebuildRuntimeMapping a rows) =
          foldl (rebuild_step (namespace a)) (metaByStateId (rebuildRuntimeMapping a (pre @ [r]))) post"
      by (simp add: rebuildRuntimeMapping_meta assms)
    then show ?thesis
      using rebuild_foldl_keeps [OF that] 1 by simp
  qed
  from ob have d: "row_doc r = Some ob" by blast
  note 3 = row_record_defaults [OF rr d]
  from rr 1 2 3
  show "\<exists>idRel mr.
           row_record (namespace a) r = Some (idRel, mr) \<and>
           map_of (metaByStateId (rebuildRuntimeMapping a (pre @ [r]))) idRel = Some mr \<and>
           ((\<forall>r' \<in> set post. \<forall>mr'. row_record (namespace a) r' \<noteq> Some (idRel, mr')) \<longrightarrow>
              map_of (metaByStateId (rebuildRuntimeMapping a rows)) idRel = Some mr) \<and>
           (let pf = flags_or_empty (native_flags (native_or_empty (obj_native ob))) in
              (p_transmitFlag pf = Undefined \<longrightarrow> transmitFlag (meta_flags mr)) \<and>
              (p_readFlag pf = Undefined \<longrightarrow> \<not> readFlag (meta_flags mr)) \<and>
              (p_writeFlag pf = Undefined \<longrightarrow> \<not> writeFlag (meta_flags mr)) \<and>
              (p_updateFlag pf = Undefined \<longrightarrow> \<not> updateFlag (meta_flags mr)))"
    by blast
next
  fix idRel mr
  assume "map_of (metaByStateId (rebuildRuntimeMapping a rows)) idRel = Some mr"
  then have "map_of (foldl (rebuild_step (namespace a)) [] rows) idRel = Some mr"
    by (simp only: rebuildRuntimeMapping_meta)
  then have "map_of [] idRel = Some mr \<or>
             (\<exists>r' \<in> set rows. row_record (namespace a) r' = Some (idRel, mr))"
    by (rule rebuild_foldl_origin)
  then obtain r' where r': "r' \<in> set rows" "row_record (namespace a) r' = Some (idRel, mr)"
    by auto
  then have "row_record (namespace a) r' \<noteq> None" by simp
  then have "\<exists>ob. row_doc r' = Some ob \<and> obj_type ob = js ''state'' \<and>
             truthy (native_ga (native_or_empty (obj_native ob)))"
    using row_record_Some_iff [of "namespace a" r'] by blast
  with r' show "\<exists>r' \<in> set rows. \<exists>ob. row_doc r' = Some ob \<and> obj_type ob = js ''state'' \<and>
             truthy (native_ga (native_or_empty (obj_native ob))) \<and>
             row_record (namespace a) r' = Some (idRel, mr)"
    by blast
qed

theorem rebuild_row_contributes_witness:
  "metaByStateId (rebuildRuntimeMapping example_adapter
       [example_row Undefined, example_row (Str (js ''3/400''))])
     = metaByStateId (rebuildRuntimeMapping example_adapter [example_row (Str (js ''3/400''))]) \<and>
   (\<exists>mr. map_of (metaByStateId (rebuildRuntimeMapping example_adapter
                 [example_row Undefined, example_row (Str (js ''3/400''))])) (js ''ga.light'')
           = Some mr \<and>
         transmitFlag (meta_flags mr) \<and> \<not> readFlag (meta_flags mr) \<and>
         \<not> updateFlag (meta_flags mr))"
proof -
  let ?u = "example_row Undefined"
  let ?s = "example_row (Str (js ''3/400''))"
  let ?ob = "\<lambda>g. \<lparr>obj_type = js ''state'', obj_common = None,
              obj_native =
                Some \<lparr>native_ga = g, native_dpt = Str (js ''1.001''),
                      native_flags =
                        Some \<lparr>p_readFlag = Undefined, p_writeFlag = Bool True,
                              p_transmitFlag = Undefined, p_updateFlag = Undefined\<rparr>,
                      native_description = Undefined\<rparr>\<rparr>"
  have d: "row_doc (example_row g) = Some (?ob g)" for g
    by (simp add: example_row_def)
  have ty: "obj_type (?ob g) = js ''state''" for g by simp
  have u: "\<not> truthy (native_ga (native_or_empty (obj_native (?ob Undefined))))"
    by (simp add: native_or_empty_def)
  have s: "truthy (native_ga (native_or_empty (obj_native (?ob (Str (js ''3/400''))))))"
    by (simp add: native_or_empty_def js_def)
  have pf: "flags_or_empty (native_flags (native_or_empty (obj_native (?ob g)))) =
            \<lparr>p_readFlag = Undefined, p_writeFlag = Bool True,
             p_transmitFlag = Undefined, p_updateFlag = Undefined\<rparr>" for g
    by (simp add: native_or_empty_def flags_or_empty_def)
  have k: "\<exists>mr. row_record (namespace example_adapter) ?s = Some (js ''ga.light'', mr)"
    by (simp add: row_record_def example_row_def example_adapter_def native_or_empty_def
        Let_def js_def)
  have nu: "\<not> (\<exists>ob. row_doc ?u = Some ob \<and> obj_type ob = js ''state'' \<and>
            truthy (native_ga (native_or_empty (obj_native ob))))"
    using d [of Undefined] u by auto
  have l1: "[?u, ?s] = [] @ ?u # [?s]" and l2: "[?u, ?s] = [?u] @ ?s # []"
    by simp_all
  have first: "metaByStateId (rebuildRuntimeMapping example_adapter [?u, ?s])
     = metaByStateId (rebuildRuntimeMapping example_adapter [?s])"
    using rebuild_row_contributes [OF l1, of example_adapter] nu by simp
  have ex: "row_doc ?s = Some (?ob (Str (js ''3/400''))) \<and>
            obj_type (?ob (Str (js ''3/400''))) = js ''state'' \<and>
            truthy (native_ga (native_or_empty (obj_native (?ob (Str (js ''3/400''))))))"
    using d [of "Str (js ''3/400'')"] ty s by blast
  from rebuild_row_contributes [OF l2, of example_adapter] ex
  obtain idRel mr where
    rr: "row_record (namespace example_adapter) ?s = Some (idRel, mr)"
    and m: "(\<forall>r' \<in> set []. \<forall>mr'. row_record (namespace example_adapter) r' \<noteq> Some (idRel, mr')) \<longrightarrow>
            map_of (metaByStateId (rebuildRuntimeMapping example_adapter [?u, ?s])) idRel = Some mr"
    and df: "let pf = flags_or_empty (native_flags (native_or_empty
                        (obj_native (?ob (Str (js ''3/400''))))))
             in (p_transmitFlag pf = Undefined \<longrightarrow> transmitFlag (meta_flags mr)) \<and>
                (p_readFlag pf = Undefined \<longrightarrow> \<not> readFlag (meta_flags mr)) \<and>
                (p_writeFlag pf = Undefined \<longrightarrow> \<not> writeFlag (meta_flags mr)) \<and>
                (p_updateFlag pf = Undefined \<longrightarrow> \<not> updateFlag (meta_flags mr))"
    by blast
  from rr k have id: "idRel = js ''ga.light''" by auto
  from m have "map_of (metaByStateId (rebuildRuntimeMapping example_adapter [?u, ?s])) idRel = Some mr"
    by simp
  moreover from df have "transmitFlag (meta_flags mr) \<and> \<not> readFlag (meta_flags mr) \<and>
       \<not> updateFlag (meta_flags mr)"
    unfolding pf by (simp add: Let_def)
  ultimately show ?thesis using first id by blast
qed

text \<open>
  Claim C10. After \<open>upsertGaState\<close> the object stored under the entry's identifier,
  whether it was created or was there before, has its \<^verbatim>\<open>common.write\<close> set exactly when
  the entry's write flag or its read flag is set.
\<close>

theorem upsertGaState_write:
  "\<exists>ob c. map_of (upsertGaState e objs) (entry_id e) = Some ob \<and> obj_common ob = Some c \<and>
      (common_write c \<longleftrightarrow> (case entry_flags e of None \<Rightarrow> False | Some f \<Rightarrow> writeFlag f \<or> readFlag f))"
  by (cases "map_of objs (entry_id e)")
     (simp_all add: upsertGaState_def Let_def extendObject_def setObjectNotExists_def update_conv')

theorem upsertGaState_write_witness:
  "\<exists>ob c. map_of (upsertGaState example_entry []) (js ''ga.temp'') = Some ob \<and>
      obj_common ob = Some c \<and> common_write c"
  using upsertGaState_write [of example_entry "[]"]
  by (simp add: example_entry_def)

end
